theory Spec2Isabelle
  imports Main "HOL-Library.Word"
begin

section \<open>Data model\<close>

text \<open>
  Go's \<open>int\<close> is a 64-bit two's complement integer on the usual platforms: \<open>+\<close> wraps,
  and the comparison \<open>>=\<close> is on the signed values (\<open>sint\<close>).
\<close>

type_synonym goint = "64 word"

definition MaxInt :: goint where
  "MaxInt = 9223372036854775807"

text \<open>
  Modelled from the spec: the declaration of \<open>Update\<close> is not in bot.go. An Update carries
  its \<open>UpdateID\<close> (an \<open>int\<close>, compared with \<open>config.Offset\<close> in GetUpdatesChan) and an
  event payload, left abstract.
\<close>

record 'p Update =
  UpdateID :: goint
  Payload :: 'p

text \<open>
  Modelled from the spec: the declaration of \<open>UpdateConfig\<close> is not in bot.go. GetUpdates
  reads the three \<open>int\<close> fields \<open>Offset\<close>, \<open>Limit\<close> and \<open>Timeout\<close>.
\<close>

record UpdateConfig =
  Offset :: goint
  Limit :: goint
  Timeout :: goint

subsection \<open>Buffered channels\<close>

text \<open>
  A Go channel \<open>make(chan T, n)\<close>: its capacity, the values buffered (oldest first), and
  whether it has been closed.
\<close>

record 'a chan =
  cap :: nat
  buf :: "'a list"
  closed :: bool

text \<open>\<open>make(chan T, n)\<close> panics for a negative size.\<close>

definition make_chan :: "goint \<Rightarrow> 'a chan option" where
  "make_chan n =
     (if sint n < 0 then None
      else Some \<lparr>cap = nat (sint n), buf = [], closed = False\<rparr>)"

text \<open>
  One attempt of \<open>ch <- x\<close> without a waiting receiver: a send on a closed channel panics,
  a send on a channel with room appends to the buffer, a send on a full channel does not
  complete.
\<close>

datatype 'a send_result = Sent "'a chan" | WouldBlock | SendPanic

definition chan_send :: "'a chan \<Rightarrow> 'a \<Rightarrow> 'a send_result" where
  "chan_send c x =
     (if closed c then SendPanic
      else if length (buf c) < cap c then Sent (c\<lparr>buf := buf c @ [x]\<rparr>)
      else WouldBlock)"

text \<open>\<open>close(ch)\<close>: closing a closed channel panics (\<open>None\<close>); the buffer is kept.\<close>

definition chan_close :: "'a chan \<Rightarrow> 'a chan option" where
  "chan_close c = (if closed c then None else Some (c\<lparr>closed := True\<rparr>))"

text \<open>
  The channel together with the application reading from it: the values the application
  has received so far, and \<open>demand\<close>, the number of receives it still performs. The
  application is outside the repository; it is modelled as receiving only when the
  producer waits on a full channel, which leaves the order of the values unchanged.
\<close>

record 'a queue =
  chan :: "'a chan"
  received :: "'a list"
  demand :: nat

text \<open>Everything sent so far, in order: received by the application, or still buffered.\<close>

definition published :: "'a queue \<Rightarrow> 'a list" where
  "published q = received q @ buf (chan q)"

text \<open>How many sends can still complete: free slots plus the receives still to come.\<close>

definition room :: "'a queue \<Rightarrow> nat" where
  "room q = (cap (chan q) - length (buf (chan q))) + demand q"

datatype 'a sent = Done "'a queue" | Blocked | Panic

text \<open>
  The statement \<open>ch <- x\<close>. On a full channel the sender waits for a receive: the
  application takes the oldest buffered value (or \<open>x\<close> itself when nothing is buffered,
  as on an unbuffered channel) and the send completes; when the application receives
  nothing more, the sender stays blocked.
\<close>

definition send :: "'a queue \<Rightarrow> 'a \<Rightarrow> 'a sent" where
  "send q x =
     (case chan_send (chan q) x of
        SendPanic \<Rightarrow> Panic
      | Sent c \<Rightarrow> Done (q\<lparr>chan := c\<rparr>)
      | WouldBlock \<Rightarrow>
          (case demand q of
             0 \<Rightarrow> Blocked
           | Suc k \<Rightarrow>
               (case buf (chan q) of
                  [] \<Rightarrow> Done (q\<lparr>received := received q @ [x], demand := k\<rparr>)
                | y # ys \<Rightarrow>
                    Done (q\<lparr>chan := (chan q)\<lparr>buf := ys @ [x]\<rparr>,
                            received := received q @ [y], demand := k\<rparr>))))"

section \<open>Errors, the client and GetUpdates\<close>

text \<open>
  A Go \<open>error\<close> value, by where it is made: \<open>errors.New(text)\<close> in bot.go, or an error
  handed over by code outside bot.go (transport, JSON decoding, the API's error reply),
  kept with its message.
\<close>

datatype error = ErrorsNew string | Foreign string

fun Error :: "error \<Rightarrow> string" where
  "Error (ErrorsNew text) = text"
| "Error (Foreign text) = text"

text \<open>
  The fields of \<open>BotAPI\<close> that bot.go uses. \<open>shutdownChannel\<close> is a channel that is only
  ever closed; \<open>Self\<close> is the result of GetMe.
\<close>

record 'u BotAPI =
  Token :: string
  Buffer :: goint
  Self :: "'u option"
  shutdownChannel :: "unit chan"
  apiEndpoint :: string

text \<open>
  NewBotAPIWithClient; \<open>getMe\<close> is what \<open>bot.GetMe()\<close> returns through the client.
  \<open>make(chan interface{})\<close> is an unbuffered channel.
\<close>

definition NewBotAPIWithClient :: "string \<Rightarrow> string \<Rightarrow> error + 'u \<Rightarrow> error + 'u BotAPI" where
  "NewBotAPIWithClient token endpoint getMe =
     (let bot = \<lparr>Token = token, Buffer = 100, Self = None,
                 shutdownChannel = \<lparr>cap = 0, buf = [], closed = False\<rparr>,
                 apiEndpoint = endpoint\<rparr>
      in case getMe of
           Inl err \<Rightarrow> Inl err
         | Inr self \<Rightarrow> Inr (bot\<lparr>Self := Some self\<rparr>))"

text \<open>\<open>url.Values\<close> is a \<open>map[string][]string\<close>; \<open>Add\<close> appends to the key's values.\<close>

type_synonym Values = "string \<rightharpoonup> string list"

definition Add :: "string \<Rightarrow> string \<Rightarrow> Values \<Rightarrow> Values" where
  "Add key val v = v(key \<mapsto> (case v key of None \<Rightarrow> [] | Some vs \<Rightarrow> vs) @ [val])"

text \<open>\<open>strconv.Itoa\<close>: the decimal digits, with a leading minus sign for negatives.\<close>

definition digit :: "nat \<Rightarrow> char" where
  "digit d = ''0123456789'' ! d"

fun decimal :: "nat \<Rightarrow> string" where
  "decimal n =
     (if n < 10 then [digit n]
      else decimal (n div 10) @ [digit (n mod 10)])"

declare decimal.simps [simp del]

definition Itoa :: "goint \<Rightarrow> string" where
  "Itoa i =
     (if sint i < 0 then CHR ''-'' # decimal (nat (- sint i))
      else decimal (nat (sint i)))"

text \<open>
  The parameters GetUpdates builds:
  \<^verbatim>\<open>v := url.Values{}
  if config.Offset != 0 { v.Add("offset", strconv.Itoa(config.Offset)) }
  if config.Limit > 0 { v.Add("limit", strconv.Itoa(config.Limit)) }
  if config.Timeout > 0 { v.Add("timeout", strconv.Itoa(config.Timeout)) }\<close>
\<close>

definition GetUpdates_values :: "UpdateConfig \<Rightarrow> Values" where
  "GetUpdates_values config =
     (let v = Map.empty;
          v = (if Offset config \<noteq> 0 then Add ''offset'' (Itoa (Offset config)) v else v);
          v = (if 0 < sint (Limit config) then Add ''limit'' (Itoa (Limit config)) v else v);
          v = (if 0 < sint (Timeout config) then Add ''timeout'' (Itoa (Timeout config)) v else v)
      in v)"

text \<open>
  GetUpdates hands the parameters to \<open>bot.MakeRequest("getUpdates", v, &updates)\<close> and
  returns the decoded updates or the error. The request goes over the network, so
  \<open>MakeRequest\<close> is a parameter: the answer of the remote side to this one call.
\<close>

type_synonym 'p MakeRequest = "string \<Rightarrow> Values \<Rightarrow> error + 'p Update list"

definition GetUpdates :: "'p MakeRequest \<Rightarrow> UpdateConfig \<Rightarrow> error + 'p Update list" where
  "GetUpdates MakeRequest config = MakeRequest ''getUpdates'' (GetUpdates_values config)"

section \<open>The polling loop of GetUpdatesChan\<close>

datatype status = Running | Returned | Panicked | BlockedOnSend

text \<open>
  The state of the goroutine started by GetUpdatesChan: its copy of \<open>config\<close>, the channel
  \<open>ch\<close> with its reader, the client (for \<open>bot.shutdownChannel\<close>), what was logged, and the
  seconds slept. \<open>Panicked\<close> is an unrecovered Go panic, which ends the program.
\<close>

record ('u, 'p) poller =
  config :: UpdateConfig
  ch :: "'p Update queue"
  bot_api :: "'u BotAPI"
  status :: status
  logged :: "string list"
  slept :: nat

text \<open>\<open>ch <- update\<close> inside the goroutine.\<close>

definition send_update :: "'p Update \<Rightarrow> ('u, 'p) poller \<Rightarrow> ('u, 'p) poller" where
  "send_update update s =
     (case send (ch s) update of
        Done q \<Rightarrow> s\<lparr>ch := q\<rparr>
      | Blocked \<Rightarrow> s\<lparr>status := BlockedOnSend\<rparr>
      | Panic \<Rightarrow> s\<lparr>status := Panicked\<rparr>)"

text \<open>
  \<^verbatim>\<open>for _, update := range updates {
    if update.UpdateID >= config.Offset {
      config.Offset = update.UpdateID + 1
      ch <- update
    }
  }\<close>
\<close>

fun range_updates :: "'p Update list \<Rightarrow> ('u, 'p) poller \<Rightarrow> ('u, 'p) poller" where
  "range_updates [] s = s"
| "range_updates (update # updates) s =
     (if sint (Offset (config s)) \<le> sint (UpdateID update) then
        (let s' = send_update update
                    (s\<lparr>config := (config s)\<lparr>Offset := UpdateID update + 1\<rparr>\<rparr>)
         in if status s' = Running then range_updates updates s' else s')
      else range_updates updates s)"

text \<open>\<open>close(ch)\<close> inside the goroutine.\<close>

definition close_ch :: "('u, 'p) poller \<Rightarrow> ('u, 'p) poller" where
  "close_ch s =
     (case chan_close (chan (ch s)) of
        None \<Rightarrow> s\<lparr>status := Panicked\<rparr>
      | Some c \<Rightarrow> s\<lparr>ch := (ch s)\<lparr>chan := c\<rparr>\<rparr>)"

text \<open>
  The goroutine starts with \<open>defer close(ch)\<close>, so returning from it runs \<open>close(ch)\<close>
  once more before the goroutine ends.
\<close>

definition return_deferred :: "('u, 'p) poller \<Rightarrow> ('u, 'p) poller" where
  "return_deferred s =
     (let s' = close_ch s
      in if status s' = Running then s'\<lparr>status := Returned\<rparr> else s')"

text \<open>
  A receive in a \<open>select\<close> with a \<open>default\<close> case is taken when the channel is closed or
  holds a value.
\<close>

definition can_receive :: "'a chan \<Rightarrow> bool" where
  "can_receive c = (closed c \<or> buf c \<noteq> [])"

text \<open>
  One pass of the \<open>for\<close> loop:
  \<^verbatim>\<open>select {
  case <-bot.shutdownChannel:
    close(ch)
    return
  default:
  }
  updates, err := bot.GetUpdates(config)
  if err != nil {
    log.Println(err)
    log.Println("Failed to get updates, retrying in 3 seconds...")
    time.Sleep(time.Second * 3)
    continue
  }
  for _, update := range updates { ... }\<close>
\<close>

definition loop_pass :: "'p MakeRequest \<Rightarrow> ('u, 'p) poller \<Rightarrow> ('u, 'p) poller" where
  "loop_pass MakeRequest s =
     (if can_receive (shutdownChannel (bot_api s)) then
        (let s' = close_ch s
         in if status s' = Running then return_deferred s' else s')
      else
        (case GetUpdates MakeRequest (config s) of
           Inl err \<Rightarrow>
             s\<lparr>logged := logged s @ [Error err, ''Failed to get updates, retrying in 3 seconds...''],
               slept := slept s + 3\<rparr>
         | Inr updates \<Rightarrow> range_updates updates s))"

text \<open>StopReceivingUpdates is \<open>close(bot.shutdownChannel)\<close>; \<open>None\<close> is the panic.\<close>

definition StopReceivingUpdates :: "'u BotAPI \<Rightarrow> 'u BotAPI option" where
  "StopReceivingUpdates b =
     (case chan_close (shutdownChannel b) of
        None \<Rightarrow> None
      | Some c \<Rightarrow> Some (b\<lparr>shutdownChannel := c\<rparr>))"

text \<open>
  A polling session is driven by its environment: the application calling
  StopReceivingUpdates between two passes, and the answer of the remote side to the
  request of each pass. The loop has no exit of its own, so a finite list of events is a
  prefix of a session; the goroutine takes no further step once it has returned, panicked
  or is blocked for good.
\<close>

datatype 'p event = Stop | Pass "'p MakeRequest"

fun poll :: "'p event list \<Rightarrow> ('u, 'p) poller \<Rightarrow> ('u, 'p) poller" where
  "poll [] s = s"
| "poll (e # es) s =
     (if status s \<noteq> Running then s
      else poll es
        (case e of
           Stop \<Rightarrow>
             (case StopReceivingUpdates (bot_api s) of
                None \<Rightarrow> s\<lparr>status := Panicked\<rparr>
              | Some b \<Rightarrow> s\<lparr>bot_api := b\<rparr>)
         | Pass MakeRequest \<Rightarrow> loop_pass MakeRequest s))"

text \<open>
  GetUpdatesChan makes the channel with the client's \<open>Buffer\<close> as capacity and starts the
  goroutine; \<open>None\<close> is the panic of \<open>make\<close>. \<open>d\<close> is the number of receives the
  application performs on the returned channel.
\<close>

definition GetUpdatesChan :: "'u BotAPI \<Rightarrow> UpdateConfig \<Rightarrow> nat \<Rightarrow> ('u, 'p) poller option" where
  "GetUpdatesChan b cfg d =
     (case make_chan (Buffer b) of
        None \<Rightarrow> None
      | Some c \<Rightarrow>
          Some \<lparr>config = cfg, ch = \<lparr>chan = c, received = [], demand = d\<rparr>, bot_api = b,
                status = Running, logged = [], slept = 0\<rparr>)"

section \<open>Webhooks\<close>

text \<open>
  Of an \<open>http.Request\<close> the handler reads the method and the body. Decoding the body is
  \<open>encoding/json\<close>'s work, so \<open>decode\<close> is a parameter: the message of the decoder's
  error, or the Update.
\<close>

record Request =
  Method :: string
  Body :: string

type_synonym 'p decoder = "string \<Rightarrow> string + 'p Update"

text \<open>
  \<^verbatim>\<open>if r.Method != http.MethodPost {
    err := errors.New("wrong HTTP method required POST")
    return nil, err
  }
  var update Update
  err := json.NewDecoder(r.Body).Decode(&update)
  if err != nil { return nil, err }
  return &update, nil\<close>
\<close>

definition HandleUpdate :: "'p decoder \<Rightarrow> Request \<Rightarrow> error + 'p Update" where
  "HandleUpdate decode r =
     (if Method r \<noteq> ''POST'' then Inl (ErrorsNew ''wrong HTTP method required POST'')
      else case decode (Body r) of
             Inl msg \<Rightarrow> Inl (Foreign msg)
           | Inr update \<Rightarrow> Inr update)"

text \<open>
  What the handler registered by ListenForWebhook does with one request: it answers 400
  with the error's message, or sends the Update on the channel and returns (an empty
  200 reply); a send that cannot complete leaves the handler blocked.
\<close>

datatype reply = BadRequest string | Ok | HandlerBlocked | HandlerPanic

definition webhook_handler :: "'p decoder \<Rightarrow> Request \<Rightarrow> 'p Update queue \<Rightarrow> reply \<times> 'p Update queue" where
  "webhook_handler decode r q =
     (case HandleUpdate decode r of
        Inl err \<Rightarrow> (BadRequest (Error err), q)
      | Inr update \<Rightarrow>
          (case send q update of
             Done q' \<Rightarrow> (Ok, q')
           | Blocked \<Rightarrow> (HandlerBlocked, q)
           | Panic \<Rightarrow> (HandlerPanic, q)))"

text \<open>
  ListenForWebhook makes the channel the handler sends on, again with \<open>Buffer\<close> as
  capacity.
\<close>

definition ListenForWebhook :: "'u BotAPI \<Rightarrow> nat \<Rightarrow> 'p Update queue option" where
  "ListenForWebhook b d =
     (case make_chan (Buffer b) of
        None \<Rightarrow> None
      | Some c \<Rightarrow> Some \<lparr>chan = c, received = [], demand = d\<rparr>)"

section \<open>A sample session\<close>

text \<open>
  The client that \<open>NewBotAPIWithClient\<close> returns for a successful GetMe, the polling state
  that \<open>GetUpdatesChan\<close> starts from for an initial offset, and an Update with an empty
  payload. The theorems below are evaluated on them.
\<close>

definition example_bot :: "unit BotAPI" where
  "example_bot =
     \<lparr>Token = ''token'', Buffer = 100, Self = Some (),
      shutdownChannel = \<lparr>cap = 0, buf = [], closed = False\<rparr>, apiEndpoint = ''endpoint''\<rparr>"

definition example_poller :: "goint \<Rightarrow> (unit, unit) poller" where
  "example_poller off =
     \<lparr>config = \<lparr>Offset = off, Limit = 0, Timeout = 0\<rparr>,
      ch = \<lparr>chan = \<lparr>cap = 100, buf = [], closed = False\<rparr>, received = [], demand = 0\<rparr>,
      bot_api = example_bot, status = Running, logged = [], slept = 0\<rparr>"

definition upd :: "goint \<Rightarrow> unit Update" where
  "upd i = \<lparr>UpdateID = i, Payload = ()\<rparr>"

text \<open>What the loop logs for a run of failed fetches: two lines per failure.\<close>

definition failure_log :: "error list \<Rightarrow> string list" where
  "failure_log errs =
     concat (map (\<lambda>err. [Error err, ''Failed to get updates, retrying in 3 seconds...'']) errs)"

text \<open>
  A sample decoder: \<open>{}\<close> decodes to the zero Update; any other body is answered like a
  body cut off after its opening brace, on which \<open>Decode\<close> reports an unexpected EOF.
\<close>

definition json_example :: "unit decoder" where
  "json_example body =
     (if body = ''{}'' then Inr (upd 0) else Inl ''unexpected EOF'')"

text \<open>An empty open queue of capacity \<open>n\<close> whose reader performs \<open>d\<close> receives.\<close>

definition example_queue :: "nat \<Rightarrow> nat \<Rightarrow> unit Update queue" where
  "example_queue n d = \<lparr>chan = \<lparr>cap = n, buf = [], closed = False\<rparr>, received = [], demand = d\<rparr>"

section \<open>Properties of a session\<close>

text \<open>
  The cursor is where it should be: at the initial offset while nothing has been
  published, and otherwise one above the largest UpdateID published so far.
\<close>

definition cursor_ok :: "goint \<Rightarrow> ('u, 'p) poller \<Rightarrow> bool" where
  "cursor_ok initial s =
     (if published (ch s) = [] then Offset (config s) = initial
      else sint (Offset (config s)) = Max (sint ` UpdateID ` set (published (ch s))) + 1)"

text \<open>The channel of the session has capacity \<open>n\<close> and holds at most \<open>n\<close> values.\<close>

definition bounded :: "('u, 'p) poller \<Rightarrow> nat \<Rightarrow> bool" where
  "bounded s n = (cap (chan (ch s)) = n \<and> length (buf (chan (ch s))) \<le> n)"

section \<open>Basic facts\<close>

subsection \<open>The sample session\<close>

lemma example_bot_constructed:
  "NewBotAPIWithClient ''token'' ''endpoint'' (Inr ()) = Inr example_bot"
  by (simp add: NewBotAPIWithClient_def example_bot_def)

lemma example_poller_started:
  "GetUpdatesChan example_bot \<lparr>Offset = off, Limit = 0, Timeout = 0\<rparr> 0 = Some (example_poller off)"
  by (simp add: GetUpdatesChan_def example_bot_def example_poller_def make_chan_def)

subsection \<open>Signed arithmetic\<close>

lemma sint_succ:
  fixes a b :: goint
  assumes "sint a < sint b"
  shows "sint (a + 1) = sint a + 1"
proof -
  have "sint b < 2 ^ (LENGTH(64) - 1)" by (rule sint_lt)
  moreover have "- (2 ^ (LENGTH(64) - 1)) \<le> sint a" by (rule sint_ge)
  ultimately show ?thesis using assms
    by (simp add: sint_word_ariths signed_take_bit_int_eq_self)
qed

lemma sint_MaxInt: "sint MaxInt = 9223372036854775807"
  by (simp add: MaxInt_def)

lemma sint_succ_below_MaxInt:
  fixes a :: goint
  assumes "a \<noteq> MaxInt"
  shows "sint (a + 1) = sint a + 1"
proof -
  have "sint a \<noteq> sint MaxInt" using assms by (auto dest: signed_word_eqI)
  moreover have "sint a < 2 ^ (LENGTH(64) - 1)" by (rule sint_lt)
  moreover have "- (2 ^ (LENGTH(64) - 1)) \<le> sint a" by (rule sint_ge)
  ultimately show ?thesis
    by (simp add: sint_MaxInt sint_word_ariths signed_take_bit_int_eq_self)
qed

lemma sint_succ_MaxInt: "sint (MaxInt + 1) = - 9223372036854775808"
  by (simp add: MaxInt_def)

subsection \<open>Sending\<close>

lemma send_Done:
  assumes "send q x = Done q'"
  shows "published q' = published q @ [x] \<and> closed (chan q') = closed (chan q)
       \<and> cap (chan q') = cap (chan q) \<and> \<not> closed (chan q)"
  using assms
  by (auto simp: send_def chan_send_def published_def split: if_splits nat.splits list.splits)

lemma send_room:
  assumes "\<not> closed (chan q)" "0 < room q"
  shows "\<exists>q'. send q x = Done q' \<and> room q' = room q - 1"
  using assms
  by (auto simp: send_def chan_send_def room_def split: nat.splits list.splits)

lemma send_update_room:
  assumes "\<not> closed (chan (ch s))" "0 < room (ch s)"
  shows "published (ch (send_update u s)) = published (ch s) @ [u]
       \<and> room (ch (send_update u s)) = room (ch s) - 1
       \<and> closed (chan (ch (send_update u s))) = closed (chan (ch s))
       \<and> status (send_update u s) = status s
       \<and> config (send_update u s) = config s"
proof -
  obtain q' where q': "send (ch s) u = Done q'" "room q' = room (ch s) - 1"
    using send_room[OF assms] by blast
  from send_Done[OF q'(1)] q' show ?thesis by (simp add: send_update_def)
qed

lemma send_update_status:
  "status (send_update u s) = status s \<or> status (send_update u s) = BlockedOnSend
   \<or> status (send_update u s) = Panicked"
  by (simp add: send_update_def split: sent.splits)

lemma send_update_config [simp]: "config (send_update u s) = config s"
  by (simp add: send_update_def split: sent.splits)

lemma send_update_bot [simp]: "bot_api (send_update u s) = bot_api s"
  by (simp add: send_update_def split: sent.splits)

lemma send_update_Running:
  assumes "status (send_update u s) = Running"
  shows "published (ch (send_update u s)) = published (ch s) @ [u] \<and> status s = Running"
proof (cases "send (ch s) u")
  case (Done q)
  then show ?thesis using assms send_Done[OF Done] by (simp add: send_update_def)
next
  case Blocked
  then show ?thesis using assms by (simp add: send_update_def)
next
  case Panic
  then show ?thesis using assms by (simp add: send_update_def)
qed

subsection \<open>A batch above the offset\<close>

lemma range_updates_batch:
  assumes "status s = Running" "\<not> closed (chan (ch s))"
    "sorted_wrt (\<lambda>u v. sint (UpdateID u) < sint (UpdateID v)) batch"
    "\<forall>u\<in>set batch. sint (Offset (config s)) \<le> sint (UpdateID u)"
    "length batch \<le> room (ch s)"
  shows "published (ch (range_updates batch s)) = published (ch s) @ batch
       \<and> Offset (config (range_updates batch s)) = (if batch = [] then Offset (config s) else UpdateID (last batch) + 1)
       \<and> status (range_updates batch s) = Running"
  using assms
proof (induction batch arbitrary: s)
  case Nil
  then show ?case by simp
next
  case (Cons u us)
  let ?s1 = "s\<lparr>config := (config s)\<lparr>Offset := UpdateID u + 1\<rparr>\<rparr>"
  let ?s2 = "send_update u ?s1"
  have su: "published (ch ?s2) = published (ch s) @ [u]" "room (ch ?s2) = room (ch s) - 1"
    "\<not> closed (chan (ch ?s2))" "status ?s2 = Running" "config ?s2 = config ?s1"
    using send_update_room[of ?s1 u] Cons.prems by auto
  have off: "\<forall>v\<in>set us. sint (Offset (config ?s2)) \<le> sint (UpdateID v)"
  proof
    fix v assume v: "v \<in> set us"
    then have "sint (UpdateID u) < sint (UpdateID v)" using Cons.prems(3) by simp
    then show "sint (Offset (config ?s2)) \<le> sint (UpdateID v)"
      using su(5) by (simp add: sint_succ)
  qed
  have ih: "published (ch (range_updates us ?s2)) = published (ch ?s2) @ us
       \<and> Offset (config (range_updates us ?s2)) = (if us = [] then Offset (config ?s2) else UpdateID (last us) + 1)
       \<and> status (range_updates us ?s2) = Running"
    using Cons.IH[of ?s2] su off Cons.prems by simp
  have step: "range_updates (u # us) s = range_updates us ?s2"
    using Cons.prems(4) su(4) by (simp add: Let_def)
  show ?case unfolding step using ih su by simp
qed

subsection \<open>Sessions\<close>

lemma poll_not_running: "status s \<noteq> Running \<Longrightarrow> poll es s = s"
  by (cases es) simp_all

lemma poll_append: "poll (es1 @ es2) s = poll es2 (poll es1 s)"
  by (induction es1 arbitrary: s) (simp_all add: poll_not_running)

lemma loop_pass_failure:
  assumes "\<not> can_receive (shutdownChannel (bot_api s))" "GetUpdates mr (config s) = Inl err"
  shows "loop_pass mr s =
     s\<lparr>logged := logged s @ [Error err, ''Failed to get updates, retrying in 3 seconds...''],
       slept := slept s + 3\<rparr>"
  using assms by (simp add: loop_pass_def)

lemma poll_failures:
  assumes "status s = Running" "\<not> can_receive (shutdownChannel (bot_api s))"
    "list_all2 (\<lambda>mr err. GetUpdates mr (config s) = Inl err) fails errs"
  shows "poll (map Pass fails) s =
     s\<lparr>logged := logged s @ failure_log errs, slept := slept s + 3 * length errs\<rparr>"
  using assms
proof (induction fails arbitrary: errs s)
  case Nil
  then show ?case by (simp add: failure_log_def)
next
  case (Cons mr mrs)
  from Cons.prems(3) obtain err errs' where errs: "errs = err # errs'"
    "GetUpdates mr (config s) = Inl err"
    "list_all2 (\<lambda>mr err. GetUpdates mr (config s) = Inl err) mrs errs'"
    by (auto simp: list_all2_Cons1)
  let ?s1 = "s\<lparr>logged := logged s @ [Error err, ''Failed to get updates, retrying in 3 seconds...''],
       slept := slept s + 3\<rparr>"
  have lp: "loop_pass mr s = ?s1"
    using loop_pass_failure[OF Cons.prems(2) errs(2)] .
  have "poll (map Pass mrs) ?s1 =
     ?s1\<lparr>logged := logged ?s1 @ failure_log errs', slept := slept ?s1 + 3 * length errs'\<rparr>"
    using Cons.IH[of ?s1 errs'] Cons.prems(1,2) errs(3) by simp
  then show ?case using Cons.prems(1) lp errs(1)
    by (simp add: failure_log_def)
qed

subsection \<open>The goroutine never returns\<close>

lemma range_updates_not_Returned:
  "status s \<noteq> Returned \<Longrightarrow> status (range_updates us s) \<noteq> Returned"
proof (induction us arbitrary: s)
  case Nil
  then show ?case by simp
next
  case (Cons u us)
  let ?s1 = "s\<lparr>config := (config s)\<lparr>Offset := UpdateID u + 1\<rparr>\<rparr>"
  have "status (send_update u ?s1) \<noteq> Returned"
    using send_update_status[of u ?s1] Cons.prems by auto
  then show ?case using Cons by (simp add: Let_def)
qed

lemma loop_pass_shutdown:
  assumes "status s = Running" "can_receive (shutdownChannel (bot_api s))"
  shows "status (loop_pass mr s) = Panicked"
  using assms
  by (simp add: loop_pass_def close_ch_def return_deferred_def chan_close_def Let_def)

lemma loop_pass_not_Returned:
  assumes "status s = Running"
  shows "status (loop_pass mr s) \<noteq> Returned"
proof (cases "can_receive (shutdownChannel (bot_api s))")
  case True
  then show ?thesis using loop_pass_shutdown[OF assms] by simp
next
  case False
  then show ?thesis using assms range_updates_not_Returned[of s]
    by (simp add: loop_pass_def split: sum.splits)
qed

lemma poll_not_Returned:
  "status s \<noteq> Returned \<Longrightarrow> status (poll es s) \<noteq> Returned"
proof (induction es arbitrary: s)
  case Nil
  then show ?case by simp
next
  case (Cons e es)
  show ?case
  proof (cases "status s = Running")
    case False
    then show ?thesis using Cons.prems by simp
  next
    case True
    show ?thesis
    proof (cases e)
      case Stop
      then show ?thesis using True Cons.IH
        by (simp add: StopReceivingUpdates_def split: option.splits)
    next
      case (Pass mr)
      then show ?thesis using True Cons.IH loop_pass_not_Returned[OF True]
        by simp
    qed
  qed
qed

lemma loop_pass_shutdown_state:
  assumes "status s = Running" "\<not> closed (chan (ch s))" "can_receive (shutdownChannel (bot_api s))"
  shows "loop_pass mr s =
     s\<lparr>ch := (ch s)\<lparr>chan := (chan (ch s))\<lparr>closed := True\<rparr>\<rparr>, status := Panicked\<rparr>"
  using assms
  by (simp add: loop_pass_def close_ch_def return_deferred_def chan_close_def Let_def)

lemma stop_then_pass:
  assumes "status s = Running" "\<not> can_receive (shutdownChannel (bot_api s))"
  shows "status (poll (Stop # Pass mr # es) s) = Panicked"
proof -
  let ?b = "(bot_api s)\<lparr>shutdownChannel := (shutdownChannel (bot_api s))\<lparr>closed := True\<rparr>\<rparr>"
  have stop: "StopReceivingUpdates (bot_api s) = Some ?b"
    using assms(2) by (simp add: StopReceivingUpdates_def chan_close_def can_receive_def)
  have "status (loop_pass mr (s\<lparr>bot_api := ?b\<rparr>)) = Panicked"
    using assms(1) by (intro loop_pass_shutdown) (simp_all add: can_receive_def)
  then have "status (poll es (loop_pass mr (s\<lparr>bot_api := ?b\<rparr>))) = Panicked"
    by (simp add: poll_not_running)
  then show ?thesis using assms(1) stop by simp
qed

subsection \<open>The offset does not decrease\<close>

lemma close_ch_config [simp]: "config (close_ch s) = config s"
  by (simp add: close_ch_def split: option.splits)

lemma return_deferred_config [simp]: "config (return_deferred s) = config s"
  by (simp add: return_deferred_def Let_def)

lemma range_updates_bot [simp]: "bot_api (range_updates us s) = bot_api s"
  by (induction us arbitrary: s) (simp_all add: Let_def)

lemma range_updates_mono:
  assumes "\<forall>u\<in>set us. UpdateID u \<noteq> MaxInt"
  shows "sint (Offset (config s)) \<le> sint (Offset (config (range_updates us s)))"
  using assms
proof (induction us arbitrary: s)
  case Nil
  then show ?case by simp
next
  case (Cons u us)
  show ?case
  proof (cases "sint (Offset (config s)) \<le> sint (UpdateID u)")
    case False
    then show ?thesis using Cons by simp
  next
    case True
    let ?s1 = "s\<lparr>config := (config s)\<lparr>Offset := UpdateID u + 1\<rparr>\<rparr>"
    let ?s2 = "send_update u ?s1"
    have up: "sint (Offset (config ?s2)) = sint (UpdateID u) + 1"
      using Cons.prems by (simp add: sint_succ_below_MaxInt)
    have "sint (Offset (config ?s2)) \<le> sint (Offset (config (range_updates us ?s2)))"
      using Cons.IH[of ?s2] Cons.prems by simp
    then show ?thesis using True up by (simp add: Let_def)
  qed
qed

lemma range_updates_all_stale:
  assumes "\<forall>u\<in>set us. sint (UpdateID u) < sint (Offset (config s))"
  shows "range_updates us s = s"
  using assms by (induction us) simp_all

lemma range_updates_above:
  assumes "\<forall>u\<in>set us. UpdateID u \<noteq> MaxInt" "status (range_updates us s) = Running"
  shows "\<forall>u\<in>set us. sint (UpdateID u) < sint (Offset (config (range_updates us s)))"
  using assms
proof (induction us arbitrary: s)
  case Nil
  then show ?case by simp
next
  case (Cons u us)
  show ?case
  proof (cases "sint (Offset (config s)) \<le> sint (UpdateID u)")
    case False
    have "sint (Offset (config s)) \<le> sint (Offset (config (range_updates us s)))"
      using range_updates_mono[of us s] Cons.prems(1) by simp
    then show ?thesis using False Cons by simp
  next
    case True
    let ?s1 = "s\<lparr>config := (config s)\<lparr>Offset := UpdateID u + 1\<rparr>\<rparr>"
    let ?s2 = "send_update u ?s1"
    have step: "range_updates (u # us) s = (if status ?s2 = Running then range_updates us ?s2 else ?s2)"
      using True by (simp add: Let_def)
    have run: "status ?s2 = Running"
      using Cons.prems(2) unfolding step by (auto split: if_splits)
    have eq: "range_updates (u # us) s = range_updates us ?s2"
      using step run by simp
    have up: "sint (Offset (config ?s2)) = sint (UpdateID u) + 1"
      using Cons.prems by (simp add: sint_succ_below_MaxInt)
    have "sint (Offset (config ?s2)) \<le> sint (Offset (config (range_updates us ?s2)))"
      using range_updates_mono[of us ?s2] Cons.prems(1) by simp
    moreover have "\<forall>v\<in>set us. sint (UpdateID v) < sint (Offset (config (range_updates us ?s2)))"
      using Cons.IH[of ?s2] Cons.prems eq by simp
    ultimately show ?thesis unfolding eq using up by simp
  qed
qed

lemma loop_pass_mono:
  assumes "\<forall>cfg batch. GetUpdates mr cfg = Inr batch \<longrightarrow> (\<forall>u\<in>set batch. UpdateID u \<noteq> MaxInt)"
  shows "sint (Offset (config s)) \<le> sint (Offset (config (loop_pass mr s)))"
proof (cases "can_receive (shutdownChannel (bot_api s))")
  case True
  then show ?thesis by (simp add: loop_pass_def Let_def)
next
  case False
  show ?thesis
  proof (cases "GetUpdates mr (config s)")
    case (Inl err)
    then show ?thesis using False by (simp add: loop_pass_def)
  next
    case (Inr batch)
    then have "\<forall>u\<in>set batch. UpdateID u \<noteq> MaxInt" using assms by blast
    then show ?thesis using False Inr range_updates_mono[of batch s]
      by (simp add: loop_pass_def)
  qed
qed

lemma poll_mono:
  assumes "\<forall>mr. Pass mr \<in> set es \<longrightarrow>
     (\<forall>cfg batch. GetUpdates mr cfg = Inr batch \<longrightarrow> (\<forall>u\<in>set batch. UpdateID u \<noteq> MaxInt))"
  shows "sint (Offset (config s)) \<le> sint (Offset (config (poll es s)))"
  using assms
proof (induction es arbitrary: s)
  case Nil
  then show ?case by simp
next
  case (Cons e es)
  show ?case
  proof (cases "status s = Running")
    case False
    then show ?thesis by simp
  next
    case True
    have tl: "\<forall>mr. Pass mr \<in> set es \<longrightarrow>
       (\<forall>cfg batch. GetUpdates mr cfg = Inr batch \<longrightarrow> (\<forall>u\<in>set batch. UpdateID u \<noteq> MaxInt))"
      using Cons.prems by simp
    note ih = Cons.IH[OF tl]
    show ?thesis
    proof (cases e)
      case Stop
      show ?thesis
      proof (cases "StopReceivingUpdates (bot_api s)")
        case None
        then show ?thesis using True Stop ih[of "s\<lparr>status := Panicked\<rparr>"] by simp
      next
        case (Some b)
        then show ?thesis using True Stop ih[of "s\<lparr>bot_api := b\<rparr>"] by simp
      qed
    next
      case (Pass mr)
      then have "\<forall>cfg batch. GetUpdates mr cfg = Inr batch \<longrightarrow> (\<forall>u\<in>set batch. UpdateID u \<noteq> MaxInt)"
        using Cons.prems by simp
      then have "sint (Offset (config s)) \<le> sint (Offset (config (loop_pass mr s)))"
        by (rule loop_pass_mono)
      then show ?thesis using True Pass ih[of "loop_pass mr s"] by simp
    qed
  qed
qed

subsection \<open>The cursor follows the published Updates\<close>

lemma cursor_ok_send:
  assumes "cursor_ok initial s" "sint (Offset (config s)) \<le> sint (UpdateID u)"
    "UpdateID u \<noteq> MaxInt"
    "published (ch s') = published (ch s) @ [u]" "Offset (config s') = UpdateID u + 1"
  shows "cursor_ok initial s'"
proof (cases "published (ch s) = []")
  case True
  then show ?thesis using assms by (simp add: cursor_ok_def sint_succ_below_MaxInt)
next
  case False
  let ?old = "sint ` UpdateID ` set (published (ch s))"
  have fin: "finite ?old" "?old \<noteq> {}" using False by simp_all
  have "sint (Offset (config s)) = Max ?old + 1"
    using assms(1) False by (simp add: cursor_ok_def)
  then have "Max ?old < sint (UpdateID u)"
    using assms(2) by linarith
  then have le: "Max ?old \<le> sint (UpdateID u)"
    by linarith
  have "Max (insert (sint (UpdateID u)) ?old) = max (sint (UpdateID u)) (Max ?old)"
    using fin by (rule Max_insert)
  also have "\<dots> = sint (UpdateID u)"
    using le by (rule max.absorb1)
  finally have "Max (insert (sint (UpdateID u)) ?old) = sint (UpdateID u)" .
  then show ?thesis using assms(3,4,5)
    by (simp add: cursor_ok_def sint_succ_below_MaxInt)
qed

lemma range_updates_cursor:
  assumes "cursor_ok initial s" "\<forall>u\<in>set us. UpdateID u \<noteq> MaxInt"
    "status (range_updates us s) = Running"
  shows "cursor_ok initial (range_updates us s)"
  using assms
proof (induction us arbitrary: s)
  case Nil
  then show ?case by simp
next
  case (Cons u us)
  show ?case
  proof (cases "sint (Offset (config s)) \<le> sint (UpdateID u)")
    case False
    then show ?thesis using Cons by simp
  next
    case True
    let ?s1 = "s\<lparr>config := (config s)\<lparr>Offset := UpdateID u + 1\<rparr>\<rparr>"
    let ?s2 = "send_update u ?s1"
    have step: "range_updates (u # us) s = (if status ?s2 = Running then range_updates us ?s2 else ?s2)"
      using True by (simp add: Let_def)
    have run: "status ?s2 = Running"
      using Cons.prems(3) unfolding step by (auto split: if_splits)
    have eq: "range_updates (u # us) s = range_updates us ?s2"
      using step run by simp
    have "published (ch ?s2) = published (ch s) @ [u]"
      using send_update_Running[OF run] by simp
    then have "cursor_ok initial ?s2"
      using cursor_ok_send[of initial s u ?s2] Cons.prems(1,2) True by simp
    then show ?thesis unfolding eq using Cons.IH[of ?s2] Cons.prems(2,3) eq by simp
  qed
qed

lemma loop_pass_cursor:
  assumes "cursor_ok initial s" "status s = Running" "status (loop_pass mr s) = Running"
    "\<forall>cfg batch. GetUpdates mr cfg = Inr batch \<longrightarrow> (\<forall>u\<in>set batch. UpdateID u \<noteq> MaxInt)"
  shows "cursor_ok initial (loop_pass mr s)"
proof (cases "can_receive (shutdownChannel (bot_api s))")
  case True
  then show ?thesis using loop_pass_shutdown[OF assms(2) True, of mr] assms(3) by simp
next
  case False
  show ?thesis
  proof (cases "GetUpdates mr (config s)")
    case (Inl err)
    have "loop_pass mr s =
        s\<lparr>logged := logged s @ [Error err, ''Failed to get updates, retrying in 3 seconds...''],
          slept := slept s + 3\<rparr>"
      by (rule loop_pass_failure[OF False Inl])
    then show ?thesis using assms(1) by (simp add: cursor_ok_def)
  next
    case (Inr batch)
    then have b: "\<forall>u\<in>set batch. UpdateID u \<noteq> MaxInt" using assms(4) by blast
    have eq: "loop_pass mr s = range_updates batch s"
      using False Inr by (simp add: loop_pass_def)
    show ?thesis unfolding eq
      using range_updates_cursor[OF assms(1) b] assms(3) eq by simp
  qed
qed

lemma poll_Running:
  assumes "status (poll es s) = Running"
  shows "status s = Running"
  using assms poll_not_running[of s es] by (cases "status s = Running") simp_all

lemma poll_cursor:
  assumes "cursor_ok initial s" "status (poll es s) = Running"
    "\<forall>mr. Pass mr \<in> set es \<longrightarrow>
       (\<forall>cfg batch. GetUpdates mr cfg = Inr batch \<longrightarrow> (\<forall>u\<in>set batch. UpdateID u \<noteq> MaxInt))"
  shows "cursor_ok initial (poll es s)"
  using assms
proof (induction es arbitrary: s)
  case Nil
  then show ?case by simp
next
  case (Cons e es)
  have run: "status s = Running" using Cons.prems(2) by (rule poll_Running)
  show ?case
  proof (cases e)
    case Stop
    show ?thesis
    proof (cases "StopReceivingUpdates (bot_api s)")
      case None
      then have "poll (e # es) s = poll es (s\<lparr>status := Panicked\<rparr>)"
        using run Stop by simp
      then have "status (poll es (s\<lparr>status := Panicked\<rparr>)) = Running"
        using Cons.prems(2) by simp
      then have "status (s\<lparr>status := Panicked\<rparr>) = Running" by (rule poll_Running)
      then show ?thesis by simp
    next
      case (Some b)
      then have eq: "poll (e # es) s = poll es (s\<lparr>bot_api := b\<rparr>)"
        using run Stop by simp
      have "cursor_ok initial (s\<lparr>bot_api := b\<rparr>)"
        using Cons.prems(1) by (simp add: cursor_ok_def)
      then show ?thesis unfolding eq using Cons.IH[of "s\<lparr>bot_api := b\<rparr>"] Cons.prems(2,3) eq
        by simp
    qed
  next
    case (Pass mr)
    then have eq: "poll (e # es) s = poll es (loop_pass mr s)"
      using run by simp
    have mr: "\<forall>cfg batch. GetUpdates mr cfg = Inr batch \<longrightarrow> (\<forall>u\<in>set batch. UpdateID u \<noteq> MaxInt)"
      using Cons.prems(3) Pass by simp
    have "status (poll es (loop_pass mr s)) = Running"
      using Cons.prems(2) eq by simp
    then have r1: "status (loop_pass mr s) = Running" by (rule poll_Running)
    have "cursor_ok initial (loop_pass mr s)"
      using loop_pass_cursor[OF Cons.prems(1) run r1 mr] .
    then show ?thesis unfolding eq using Cons.IH[of "loop_pass mr s"] Cons.prems(2,3) eq
      by simp
  qed
qed

subsection \<open>A running session has an open channel\<close>

lemma send_update_open:
  assumes "\<not> closed (chan (ch s))"
  shows "\<not> closed (chan (ch (send_update u s)))"
proof (cases "send (ch s) u")
  case (Done q)
  then show ?thesis using assms send_Done[OF Done] by (simp add: send_update_def)
next
  case Blocked
  then show ?thesis using assms by (simp add: send_update_def)
next
  case Panic
  then show ?thesis using assms by (simp add: send_update_def)
qed

lemma range_updates_open:
  assumes "\<not> closed (chan (ch s))"
  shows "\<not> closed (chan (ch (range_updates us s)))"
  using assms
proof (induction us arbitrary: s)
  case Nil
  then show ?case by simp
next
  case (Cons u us)
  let ?s1 = "s\<lparr>config := (config s)\<lparr>Offset := UpdateID u + 1\<rparr>\<rparr>"
  have "\<not> closed (chan (ch (send_update u ?s1)))"
    using Cons.prems by (intro send_update_open) simp
  then show ?case using Cons by (simp add: Let_def)
qed

lemma loop_pass_open:
  assumes "\<not> closed (chan (ch s))" "status s = Running" "status (loop_pass mr s) = Running"
  shows "\<not> closed (chan (ch (loop_pass mr s)))"
proof (cases "can_receive (shutdownChannel (bot_api s))")
  case True
  then show ?thesis using loop_pass_shutdown[OF assms(2) True, of mr] assms(3) by simp
next
  case False
  then show ?thesis using assms(1) range_updates_open[OF assms(1)]
    by (simp add: loop_pass_def split: sum.splits)
qed

lemma poll_open:
  assumes "\<not> closed (chan (ch s))" "status (poll es s) = Running"
  shows "\<not> closed (chan (ch (poll es s)))"
  using assms
proof (induction es arbitrary: s)
  case Nil
  then show ?case by simp
next
  case (Cons e es)
  have run: "status s = Running" using Cons.prems(2) by (rule poll_Running)
  show ?case
  proof (cases e)
    case Stop
    show ?thesis
    proof (cases "StopReceivingUpdates (bot_api s)")
      case None
      then have "poll (e # es) s = poll es (s\<lparr>status := Panicked\<rparr>)"
        using run Stop by simp
      then have "status (poll es (s\<lparr>status := Panicked\<rparr>)) = Running"
        using Cons.prems(2) by simp
      then have "status (s\<lparr>status := Panicked\<rparr>) = Running" by (rule poll_Running)
      then show ?thesis by simp
    next
      case (Some b)
      then have eq: "poll (e # es) s = poll es (s\<lparr>bot_api := b\<rparr>)"
        using run Stop by simp
      show ?thesis unfolding eq using Cons.IH[of "s\<lparr>bot_api := b\<rparr>"] Cons.prems eq by simp
    qed
  next
    case (Pass mr)
    then have eq: "poll (e # es) s = poll es (loop_pass mr s)"
      using run by simp
    have "status (poll es (loop_pass mr s)) = Running"
      using Cons.prems(2) eq by simp
    then have r1: "status (loop_pass mr s) = Running" by (rule poll_Running)
    have "\<not> closed (chan (ch (loop_pass mr s)))"
      using loop_pass_open[OF Cons.prems(1) run r1] .
    then show ?thesis unfolding eq using Cons.IH[of "loop_pass mr s"] Cons.prems(2) eq by simp
  qed
qed

lemma running_session_open:
  assumes "GetUpdatesChan b cfg d = Some s" "status (poll es s) = Running"
  shows "\<not> closed (chan (ch (poll es s)))"
proof -
  have "\<not> closed (chan (ch s))"
    using assms(1) by (auto simp: GetUpdatesChan_def make_chan_def split: if_splits)
  then show ?thesis using assms(2) by (rule poll_open)
qed

subsection \<open>The same batch twice\<close>

lemma loop_pass_twice:
  assumes "\<forall>u\<in>set batch. UpdateID u \<noteq> MaxInt" "status (loop_pass (\<lambda>_ _. Inr batch) s) = Running"
    "status s = Running"
  shows "loop_pass (\<lambda>_ _. Inr batch) (loop_pass (\<lambda>_ _. Inr batch) s) = loop_pass (\<lambda>_ _. Inr batch) s"
proof (cases "can_receive (shutdownChannel (bot_api s))")
  case True
  then show ?thesis using loop_pass_shutdown[OF assms(3) True, of "\<lambda>_ _. Inr batch"] assms(2) by simp
next
  case False
  have eq: "loop_pass (\<lambda>_ _. Inr batch) s = range_updates batch s"
    using False by (simp add: loop_pass_def GetUpdates_def)
  have stale: "\<forall>u\<in>set batch. sint (UpdateID u) < sint (Offset (config (range_updates batch s)))"
    using range_updates_above[OF assms(1)] assms(2) eq by simp
  have "loop_pass (\<lambda>_ _. Inr batch) (range_updates batch s) = range_updates batch (range_updates batch s)"
    using False by (simp add: loop_pass_def GetUpdates_def)
  also have "\<dots> = range_updates batch s"
    using stale by (rule range_updates_all_stale)
  finally show ?thesis unfolding eq .
qed

lemma poll_idle:
  assumes "status s = Running" "\<not> can_receive (shutdownChannel (bot_api s))"
  shows "poll (replicate k (Pass (\<lambda>_ _. Inr []))) s = s"
  using assms by (induction k) (simp_all add: loop_pass_def GetUpdates_def)

lemma example_56:
  "poll [Pass (\<lambda>_ _. Inr [upd 5, upd 6])] (example_poller 0) =
      (example_poller 7)
        \<lparr>ch := \<lparr>chan = \<lparr>cap = 100, buf = [upd 5, upd 6], closed = False\<rparr>,
                 received = [], demand = 0\<rparr>\<rparr>"
  by (simp add: example_poller_def example_bot_def upd_def loop_pass_def can_receive_def
      GetUpdates_def send_update_def send_def chan_send_def)

lemma example_567:
  "poll [Pass (\<lambda>_ _. Inr [upd 5, upd 6]), Pass (\<lambda>_ _. Inr [upd 6, upd 7])] (example_poller 0) =
     (example_poller 8)
        \<lparr>ch := \<lparr>chan = \<lparr>cap = 100, buf = [upd 5, upd 6, upd 7], closed = False\<rparr>,
                 received = [], demand = 0\<rparr>\<rparr>"
  by (simp add: example_poller_def example_bot_def upd_def loop_pass_def can_receive_def
      GetUpdates_def send_update_def send_def chan_send_def)

subsection \<open>The buffer stays within its capacity\<close>

lemma send_bounded:
  assumes "send q x = Done q'" "length (buf (chan q)) \<le> cap (chan q)"
  shows "length (buf (chan q')) \<le> cap (chan q') \<and> cap (chan q') = cap (chan q)"
  using assms
  by (auto simp: send_def chan_send_def split: if_splits nat.splits list.splits)

lemma send_update_bounded:
  assumes "bounded s n"
  shows "bounded (send_update u s) n"
proof (cases "send (ch s) u")
  case (Done q)
  then show ?thesis using assms send_bounded[OF Done] by (simp add: send_update_def bounded_def)
next
  case Blocked
  then show ?thesis using assms by (simp add: send_update_def bounded_def)
next
  case Panic
  then show ?thesis using assms by (simp add: send_update_def bounded_def)
qed

lemma range_updates_bounded:
  assumes "bounded s n"
  shows "bounded (range_updates us s) n"
  using assms
proof (induction us arbitrary: s)
  case Nil
  then show ?case by simp
next
  case (Cons u us)
  let ?s1 = "s\<lparr>config := (config s)\<lparr>Offset := UpdateID u + 1\<rparr>\<rparr>"
  have "bounded ?s1 n" using Cons.prems by (simp add: bounded_def)
  then have "bounded (send_update u ?s1) n" by (rule send_update_bounded)
  then show ?case using Cons by (simp add: Let_def)
qed

lemma close_ch_bounded:
  assumes "bounded s n"
  shows "bounded (close_ch s) n"
  using assms by (simp add: close_ch_def chan_close_def bounded_def)

lemma loop_pass_bounded:
  assumes "bounded s n"
  shows "bounded (loop_pass mr s) n"
proof (cases "can_receive (shutdownChannel (bot_api s))")
  case True
  have "bounded (close_ch (close_ch s)) n"
    using assms by (intro close_ch_bounded)
  then show ?thesis using True close_ch_bounded[OF assms]
    by (simp add: loop_pass_def return_deferred_def Let_def bounded_def)
next
  case False
  then show ?thesis using assms range_updates_bounded[OF assms]
    by (simp add: loop_pass_def bounded_def split: sum.splits)
qed

lemma poll_bounded:
  assumes "bounded s n"
  shows "bounded (poll es s) n"
  using assms
proof (induction es arbitrary: s)
  case Nil
  then show ?case by simp
next
  case (Cons e es)
  show ?case
  proof (cases e)
    case Stop
    have "bounded (s\<lparr>status := Panicked\<rparr>) n" "\<And>b. bounded (s\<lparr>bot_api := b\<rparr>) n"
      using Cons.prems by (simp_all add: bounded_def)
    then show ?thesis using Stop Cons by (simp split: option.splits)
  next
    case (Pass mr)
    then show ?thesis using Cons loop_pass_bounded[of s n mr] by simp
  qed
qed

subsection \<open>A batch larger than the room in the queue\<close>

lemma send_no_room:
  assumes "\<not> closed (chan q)" "room q = 0"
  shows "send q x = Blocked"
  using assms by (simp add: send_def chan_send_def room_def)

lemma range_updates_blocked:
  assumes "status s = Running" "\<not> closed (chan (ch s))"
    "sorted_wrt (\<lambda>u v. sint (UpdateID u) < sint (UpdateID v)) batch"
    "\<forall>u\<in>set batch. sint (Offset (config s)) \<le> sint (UpdateID u)"
    "room (ch s) < length batch"
  shows "published (ch (range_updates batch s)) = published (ch s) @ take (room (ch s)) batch
       \<and> status (range_updates batch s) = BlockedOnSend"
  using assms
proof (induction batch arbitrary: s)
  case Nil
  then show ?case by simp
next
  case (Cons u us)
  let ?s1 = "s\<lparr>config := (config s)\<lparr>Offset := UpdateID u + 1\<rparr>\<rparr>"
  let ?s2 = "send_update u ?s1"
  show ?case
  proof (cases "room (ch s) = 0")
    case True
    then have "send (ch ?s1) u = Blocked"
      using Cons.prems(2) send_no_room[of "ch s" u] by simp
    then have "?s2 = ?s1\<lparr>status := BlockedOnSend\<rparr>"
      by (simp add: send_update_def)
    then show ?thesis using Cons.prems(4) True by (simp add: Let_def)
  next
    case False
    then have pos: "0 < room (ch ?s1)" by simp
    have su: "published (ch ?s2) = published (ch s) @ [u]" "room (ch ?s2) = room (ch s) - 1"
      "\<not> closed (chan (ch ?s2))" "status ?s2 = Running" "config ?s2 = config ?s1"
      using send_update_room[of ?s1 u] Cons.prems(1,2) pos by auto
    have off: "\<forall>v\<in>set us. sint (Offset (config ?s2)) \<le> sint (UpdateID v)"
    proof
      fix v assume v: "v \<in> set us"
      then have "sint (UpdateID u) < sint (UpdateID v)" using Cons.prems(3) by simp
      then show "sint (Offset (config ?s2)) \<le> sint (UpdateID v)"
        using su(5) by (simp add: sint_succ)
    qed
    have less: "room (ch ?s2) < length us" using su(2) Cons.prems(5) False by simp
    have ih: "published (ch (range_updates us ?s2)) = published (ch ?s2) @ take (room (ch ?s2)) us
       \<and> status (range_updates us ?s2) = BlockedOnSend"
      using Cons.IH[OF su(4) su(3) _ off less] Cons.prems(3) by simp
    have step: "range_updates (u # us) s = range_updates us ?s2"
      using Cons.prems(4) su(4) by (simp add: Let_def)
    show ?thesis unfolding step using ih su False by (simp add: take_Cons')
  qed
qed

section \<open>The range loop\<close>

text \<open>
  C1, as stated, fails in its last part: for the one-Update batch whose UpdateID is the
  largest \<open>int\<close>, fetched at offset 0 into a queue with room, the Update is published but
  the offset afterwards is the smallest \<open>int\<close>, not the UpdateID plus one.
\<close>

theorem cursor_not_successor_at_MaxInt:
  "status (example_poller 0) = Running
   \<and> \<not> closed (chan (ch (example_poller 0)))
   \<and> sorted_wrt (\<lambda>u v. sint (UpdateID u) < sint (UpdateID v)) [upd MaxInt]
   \<and> sint (Offset (config (example_poller 0))) \<le> sint (UpdateID (upd MaxInt))
   \<and> length [upd MaxInt] \<le> room (ch (example_poller 0))
   \<and> published (ch (range_updates [upd MaxInt] (example_poller 0))) = [upd MaxInt]
   \<and> sint (UpdateID (last [upd MaxInt])) + 1 = 9223372036854775808
   \<and> sint (Offset (config (range_updates [upd MaxInt] (example_poller 0)))) = - 9223372036854775808
   \<and> sint (Offset (config (range_updates [upd MaxInt] (example_poller 0))))
       \<noteq> sint (UpdateID (last [upd MaxInt])) + 1"
proof -
  have pass: "range_updates [upd MaxInt] (example_poller 0) =
      (example_poller (MaxInt + 1))
        \<lparr>ch := \<lparr>chan = \<lparr>cap = 100, buf = [upd MaxInt], closed = False\<rparr>,
                 received = [], demand = 0\<rparr>\<rparr>"
    by (simp add: example_poller_def upd_def send_update_def send_def chan_send_def MaxInt_def)
  have before: "status (example_poller 0) = Running"
    "\<not> closed (chan (ch (example_poller 0)))"
    "sint (Offset (config (example_poller 0))) \<le> sint (UpdateID (upd MaxInt))"
    "length [upd MaxInt] \<le> room (ch (example_poller 0))"
    by (simp_all add: example_poller_def upd_def MaxInt_def room_def)
  have after: "published (ch (range_updates [upd MaxInt] (example_poller 0))) = [upd MaxInt]"
    "sint (Offset (config (range_updates [upd MaxInt] (example_poller 0)))) = - 9223372036854775808"
    unfolding pass by (simp_all add: example_poller_def published_def sint_succ_MaxInt)
  have last: "sint (UpdateID (last [upd MaxInt])) + 1 = 9223372036854775808"
    by (simp add: upd_def MaxInt_def)
  show ?thesis using before after last by simp
qed

text \<open>
  C1, amended. A fetched batch whose UpdateIDs are strictly increasing and all at or above
  the current offset is published whole and in the batch's order: when the queue has room
  for it (free slots, or receives by the application), the output grows by exactly the
  batch. The offset afterwards is the last UpdateID plus one provided the last UpdateID is
  not the largest \<open>int\<close>; when it is, the offset is the smallest \<open>int\<close>. When the queue
  has less room, the loop has published the first Updates that fit, in order, and waits in
  the send of the next one.
\<close>

theorem batch_published_in_order:
  assumes "status s = Running" and "\<not> closed (chan (ch s))"
    and "sorted_wrt (\<lambda>u v. sint (UpdateID u) < sint (UpdateID v)) batch"
    and "\<forall>u\<in>set batch. sint (Offset (config s)) \<le> sint (UpdateID u)"
    and "batch \<noteq> []"
  shows "(length batch \<le> room (ch s) \<longrightarrow>
           published (ch (range_updates batch s)) = published (ch s) @ batch
           \<and> status (range_updates batch s) = Running
           \<and> (UpdateID (last batch) \<noteq> MaxInt \<longrightarrow>
                sint (Offset (config (range_updates batch s))) = sint (UpdateID (last batch)) + 1)
           \<and> (UpdateID (last batch) = MaxInt \<longrightarrow>
                sint (Offset (config (range_updates batch s))) = - 9223372036854775808))
       \<and> (room (ch s) < length batch \<longrightarrow>
           published (ch (range_updates batch s)) = published (ch s) @ take (room (ch s)) batch
           \<and> status (range_updates batch s) = BlockedOnSend)"
proof (intro conjI impI)
  assume fits: "length batch \<le> room (ch s)"
  note all = range_updates_batch[OF assms(1,2,3,4) fits]
  show "published (ch (range_updates batch s)) = published (ch s) @ batch"
    using all by simp
  have o: "Offset (config (range_updates batch s)) = UpdateID (last batch) + 1"
    using all assms(5) by simp
  show "status (range_updates batch s) = Running"
    using all by simp
  {
    assume "UpdateID (last batch) \<noteq> MaxInt"
    then show "sint (Offset (config (range_updates batch s))) = sint (UpdateID (last batch)) + 1"
      unfolding o by (rule sint_succ_below_MaxInt)
  }
  {
    assume "UpdateID (last batch) = MaxInt"
    then show "sint (Offset (config (range_updates batch s))) = - 9223372036854775808"
      unfolding o by (simp only: sint_succ_MaxInt)
  }
next
  assume "room (ch s) < length batch"
  then show "published (ch (range_updates batch s)) = published (ch s) @ take (room (ch s)) batch"
    and "status (range_updates batch s) = BlockedOnSend"
    using range_updates_blocked[OF assms(1,2,3,4)] by simp_all
qed

theorem batch_published_in_order_witness:
  "published (ch (range_updates [upd 5, upd 6] (example_poller 0))) = [upd 5, upd 6]
   \<and> sint (Offset (config (range_updates [upd 5, upd 6] (example_poller 0)))) = 7
   \<and> status (range_updates [upd 5, upd 6] (example_poller 0)) = Running
   \<and> published (ch (range_updates [upd 5, upd 6] ((example_poller 0)\<lparr>ch := example_queue 1 0\<rparr>)))
       = [upd 5]
   \<and> status (range_updates [upd 5, upd 6] ((example_poller 0)\<lparr>ch := example_queue 1 0\<rparr>))
       = BlockedOnSend
   \<and> sint (Offset (config (range_updates [upd MaxInt] (example_poller 0))))
       = - 9223372036854775808"
proof -
  let ?small = "(example_poller 0)\<lparr>ch := example_queue 1 0\<rparr>"
  have h: "status (example_poller 0) = Running" "\<not> closed (chan (ch (example_poller 0)))"
    "sorted_wrt (\<lambda>u v. sint (UpdateID u) < sint (UpdateID v)) [upd 5, upd 6]"
    "\<forall>u\<in>set [upd 5, upd 6]. sint (Offset (config (example_poller 0))) \<le> sint (UpdateID u)"
    "[upd 5, upd 6] \<noteq> []"
    by (simp_all add: example_poller_def upd_def)
  have r: "length [upd 5, upd 6] \<le> room (ch (example_poller 0))"
    "published (ch (example_poller 0)) = []"
    by (simp_all add: example_poller_def room_def published_def)
  have m: "UpdateID (last [upd 5, upd 6]) \<noteq> MaxInt"
    "sint (UpdateID (last [upd 5, upd 6])) + 1 = 7"
    by (simp_all add: upd_def MaxInt_def)
  have fits: "published (ch (range_updates [upd 5, upd 6] (example_poller 0))) = [upd 5, upd 6]
   \<and> sint (Offset (config (range_updates [upd 5, upd 6] (example_poller 0)))) = 7
   \<and> status (range_updates [upd 5, upd 6] (example_poller 0)) = Running"
    using batch_published_in_order[OF h] r m by simp
  have h': "status ?small = Running" "\<not> closed (chan (ch ?small))"
    "\<forall>u\<in>set [upd 5, upd 6]. sint (Offset (config ?small)) \<le> sint (UpdateID u)"
    by (simp_all add: example_poller_def example_queue_def upd_def)
  have r': "room (ch ?small) < length [upd 5, upd 6]" "room (ch ?small) = 1"
    "published (ch ?small) = []"
    by (simp_all add: example_queue_def room_def published_def)
  have blocked: "published (ch (range_updates [upd 5, upd 6] ?small)) = [upd 5]
      \<and> status (range_updates [upd 5, upd 6] ?small) = BlockedOnSend"
    using batch_published_in_order[OF h'(1,2) h(3) h'(3) h(5)] r' by simp
  have hm: "sorted_wrt (\<lambda>u v. sint (UpdateID u) < sint (UpdateID v)) [upd MaxInt]"
    "\<forall>u\<in>set [upd MaxInt]. sint (Offset (config (example_poller 0))) \<le> sint (UpdateID u)"
    "[upd MaxInt] \<noteq> []"
    "length [upd MaxInt] \<le> room (ch (example_poller 0))"
    "UpdateID (last [upd MaxInt]) = MaxInt"
    by (simp_all add: example_poller_def upd_def MaxInt_def room_def)
  have wrap: "sint (Offset (config (range_updates [upd MaxInt] (example_poller 0))))
       = - 9223372036854775808"
    using batch_published_in_order[OF h(1,2) hm(1,2,3)] hm(4,5) by blast
  show ?thesis using fits blocked wrap by (intro conjI) simp_all
qed



section \<open>Stopping\<close>

text \<open>
  C3. The claim is that after StopReceivingUpdates the loop closes the channel once and
  ends normally. It does not: when the loop finds the stop signal, the shutdown branch
  closes the channel and returns, and the deferred \<open>close(ch)\<close> closes it a second time,
  so the pass ends in a panic with the channel closed. Hence StopReceivingUpdates followed
  by the next pass ends every running session in a panic, and no session ever reaches
  the state of a goroutine that has returned.
\<close>

theorem stop_closes_channel_twice:
  "(status s = Running \<and> \<not> closed (chan (ch s)) \<and> can_receive (shutdownChannel (bot_api s)) \<longrightarrow>
      loop_pass mr s =
        s\<lparr>ch := (ch s)\<lparr>chan := (chan (ch s))\<lparr>closed := True\<rparr>\<rparr>, status := Panicked\<rparr>)
   \<and> (status s = Running \<and> \<not> can_receive (shutdownChannel (bot_api s)) \<longrightarrow>
      status (poll (Stop # Pass mr # es) s) = Panicked)
   \<and> (status s \<noteq> Returned \<longrightarrow> status (poll es s) \<noteq> Returned)"
proof (intro conjI impI)
  assume "status s = Running \<and> \<not> closed (chan (ch s)) \<and> can_receive (shutdownChannel (bot_api s))"
  then show "loop_pass mr s =
        s\<lparr>ch := (ch s)\<lparr>chan := (chan (ch s))\<lparr>closed := True\<rparr>\<rparr>, status := Panicked\<rparr>"
    using loop_pass_shutdown_state[of s mr] by simp
next
  assume "status s = Running \<and> \<not> can_receive (shutdownChannel (bot_api s))"
  then show "status (poll (Stop # Pass mr # es) s) = Panicked"
    using stop_then_pass[of s mr es] by simp
next
  assume "status s \<noteq> Returned"
  then show "status (poll es s) \<noteq> Returned" by (rule poll_not_Returned)
qed

theorem stop_closes_channel_twice_witness:
  "status (poll ([Pass (\<lambda>_ _. Inr [upd 5, upd 6])] @ [Stop, Pass (\<lambda>_ _. Inr [])])
            (example_poller 0)) = Panicked
   \<and> status (poll [Pass (\<lambda>_ _. Inr [upd 5, upd 6])] (example_poller 0)) = Running
   \<and> loop_pass (\<lambda>_ _. Inr [])
        ((example_poller 0)\<lparr>bot_api := example_bot\<lparr>shutdownChannel := \<lparr>cap = 0, buf = [], closed = True\<rparr>\<rparr>\<rparr>)
      = (example_poller 0)
          \<lparr>bot_api := example_bot\<lparr>shutdownChannel := \<lparr>cap = 0, buf = [], closed = True\<rparr>\<rparr>,
           ch := \<lparr>chan = \<lparr>cap = 100, buf = [], closed = True\<rparr>, received = [], demand = 0\<rparr>,
           status := Panicked\<rparr>"
proof -
  let ?s = "poll [Pass (\<lambda>_ _. Inr [upd 5, upd 6])] (example_poller 0)"
  let ?stopped = "(example_poller 0)
      \<lparr>bot_api := example_bot\<lparr>shutdownChannel := \<lparr>cap = 0, buf = [], closed = True\<rparr>\<rparr>\<rparr>"
  have r: "status ?s = Running" "\<not> can_receive (shutdownChannel (bot_api ?s))"
    unfolding example_56 by (simp_all add: example_poller_def example_bot_def can_receive_def)
  have "status (poll (Stop # Pass (\<lambda>_ _. Inr []) # []) ?s) = Panicked"
    using stop_closes_channel_twice[of ?s "\<lambda>_ _. Inr []" "[]"] r by blast
  then have a: "status (poll ([Pass (\<lambda>_ _. Inr [upd 5, upd 6])] @ [Stop, Pass (\<lambda>_ _. Inr [])])
            (example_poller 0)) = Panicked"
    by (simp only: poll_append)
  have c: "status ?stopped = Running \<and> \<not> closed (chan (ch ?stopped))
      \<and> can_receive (shutdownChannel (bot_api ?stopped))"
    by (simp add: example_poller_def example_bot_def can_receive_def)
  have "loop_pass (\<lambda>_ _. Inr []) ?stopped =
      ?stopped\<lparr>ch := (ch ?stopped)\<lparr>chan := (chan (ch ?stopped))\<lparr>closed := True\<rparr>\<rparr>,
                status := Panicked\<rparr>"
    using stop_closes_channel_twice[of ?stopped "\<lambda>_ _. Inr []" "[]"] c by blast
  then have b: "loop_pass (\<lambda>_ _. Inr []) ?stopped =
      (example_poller 0)
          \<lparr>bot_api := example_bot\<lparr>shutdownChannel := \<lparr>cap = 0, buf = [], closed = True\<rparr>\<rparr>,
           ch := \<lparr>chan = \<lparr>cap = 100, buf = [], closed = True\<rparr>, received = [], demand = 0\<rparr>,
           status := Panicked\<rparr>"
    by (simp add: example_poller_def)
  show ?thesis using a r(1) b by (intro conjI)
qed

section \<open>Failed fetches\<close>

text \<open>
  C4. While StopReceivingUpdates has not been called, a pass whose fetch fails only logs
  the error and the retry notice and sleeps three seconds; the channel is left as it is
  (open, nothing sent) and the loop keeps running. After any number of failed fetches the
  next successful fetch is processed as it would have been without them.
\<close>

theorem fetch_failures_contained:
  assumes "status s = Running" and "\<not> can_receive (shutdownChannel (bot_api s))"
    and "list_all2 (\<lambda>mr err. GetUpdates mr (config s) = Inl err) fails errs"
    and "GetUpdates ok (config s) = Inr batch"
  shows "poll (map Pass fails) s =
           s\<lparr>logged := logged s @ failure_log errs, slept := slept s + 3 * length errs\<rparr>
       \<and> ch (poll (map Pass fails) s) = ch s
       \<and> config (poll (map Pass fails) s) = config s
       \<and> status (poll (map Pass fails) s) = Running
       \<and> poll (map Pass fails @ [Pass ok]) s =
           range_updates batch
             (s\<lparr>logged := logged s @ failure_log errs, slept := slept s + 3 * length errs\<rparr>)"
proof -
  let ?s' = "s\<lparr>logged := logged s @ failure_log errs, slept := slept s + 3 * length errs\<rparr>"
  have f: "poll (map Pass fails) s = ?s'"
    using poll_failures[OF assms(1,2,3)] .
  have "poll [Pass ok] ?s' = range_updates batch ?s'"
    using assms(1,2,4) by (simp add: loop_pass_def)
  then have "poll (map Pass fails @ [Pass ok]) s = range_updates batch ?s'"
    using f by (simp add: poll_append)
  then show ?thesis using f assms(1) by simp
qed

theorem fetch_failures_contained_witness:
  "poll (map Pass [\<lambda>_ _. Inl (Foreign ''timeout''), \<lambda>_ _. Inl (Foreign ''EOF'')]
          @ [Pass (\<lambda>_ _. Inr [upd 5])]) (example_poller 0) =
     (example_poller 0)
       \<lparr>config := \<lparr>Offset = 6, Limit = 0, Timeout = 0\<rparr>,
        ch := \<lparr>chan = \<lparr>cap = 100, buf = [upd 5], closed = False\<rparr>, received = [], demand = 0\<rparr>,
        logged := [''timeout'', ''Failed to get updates, retrying in 3 seconds...'',
                   ''EOF'', ''Failed to get updates, retrying in 3 seconds...''],
        slept := 6\<rparr>"
  using fetch_failures_contained[of "example_poller 0"
      "[\<lambda>_ _. Inl (Foreign ''timeout''), \<lambda>_ _. Inl (Foreign ''EOF'')]"
      "[Foreign ''timeout'', Foreign ''EOF'']" "\<lambda>_ _. Inr [upd 5]" "[upd 5]"]
  by (simp add: example_poller_def example_bot_def can_receive_def GetUpdates_def
      failure_log_def upd_def send_update_def send_def chan_send_def)

section \<open>The cursor over a session\<close>

text \<open>
  C5, as stated, fails: an Update whose UpdateID is the largest \<open>int\<close> makes the offset
  wrap around to the smallest \<open>int\<close>, so the offset decreases.
\<close>

theorem cursor_decreases_at_MaxInt:
  "\<not> sint (Offset (config (example_poller 0)))
       \<le> sint (Offset (config (poll [Pass (\<lambda>_ _. Inr [upd MaxInt])] (example_poller 0))))"
  by (simp add: example_poller_def example_bot_def upd_def loop_pass_def can_receive_def
      GetUpdates_def send_update_def send_def chan_send_def MaxInt_def)

text \<open>
  C5, amended. In a session that starts with nothing published and in which no fetched
  Update has the largest \<open>int\<close> as UpdateID, the offset never decreases from one point
  of the session to a later one, and at every iteration boundary it is the initial offset
  while nothing has been published, and otherwise one above the largest UpdateID
  published so far.
\<close>

theorem cursor_monotone_below_MaxInt:
  assumes "\<forall>mr. Pass mr \<in> set (es1 @ es2) \<longrightarrow>
       (\<forall>cfg batch. GetUpdates mr cfg = Inr batch \<longrightarrow> (\<forall>u\<in>set batch. UpdateID u \<noteq> MaxInt))"
    and "published (ch s) = []"
  shows "sint (Offset (config (poll es1 s))) \<le> sint (Offset (config (poll (es1 @ es2) s)))
       \<and> (status (poll es1 s) = Running \<longrightarrow> cursor_ok (Offset (config s)) (poll es1 s))"
proof (intro conjI impI)
  have "sint (Offset (config (poll es1 s))) \<le> sint (Offset (config (poll es2 (poll es1 s))))"
    using assms(1) by (intro poll_mono) simp
  then show "sint (Offset (config (poll es1 s))) \<le> sint (Offset (config (poll (es1 @ es2) s)))"
    by (simp add: poll_append)
next
  assume "status (poll es1 s) = Running"
  moreover have "cursor_ok (Offset (config s)) s"
    using assms(2) by (simp add: cursor_ok_def)
  ultimately show "cursor_ok (Offset (config s)) (poll es1 s)"
    using assms(1) by (intro poll_cursor) simp_all
qed

theorem cursor_monotone_below_MaxInt_witness:
  "sint (Offset (config (poll [Pass (\<lambda>_ _. Inr [upd 5, upd 6])] (example_poller 0))))
     \<le> sint (Offset (config (poll ([Pass (\<lambda>_ _. Inr [upd 5, upd 6])] @ [Pass (\<lambda>_ _. Inr [upd 6, upd 7])])
           (example_poller 0))))
   \<and> cursor_ok 0 (poll [Pass (\<lambda>_ _. Inr [upd 5, upd 6])] (example_poller 0))"
proof -
  let ?es1 = "[Pass (\<lambda>_ _. Inr [upd 5, upd 6])] :: unit event list"
  let ?es2 = "[Pass (\<lambda>_ _. Inr [upd 6, upd 7])] :: unit event list"
  have h1: "\<forall>mr. Pass mr \<in> set (?es1 @ ?es2) \<longrightarrow>
       (\<forall>cfg batch. GetUpdates mr cfg = Inr batch \<longrightarrow> (\<forall>u\<in>set batch. UpdateID u \<noteq> MaxInt))"
    by (auto simp: GetUpdates_def upd_def MaxInt_def)
  have h2: "published (ch (example_poller 0)) = []"
    by (simp add: example_poller_def published_def)
  have r: "status (poll ?es1 (example_poller 0)) = Running"
    by (simp add: example_poller_def example_bot_def upd_def loop_pass_def can_receive_def
        GetUpdates_def send_update_def send_def chan_send_def)
  have o: "Offset (config (example_poller 0)) = 0"
    by (simp add: example_poller_def)
  show ?thesis
    using cursor_monotone_below_MaxInt[OF h1 h2] r unfolding o by blast
qed

text \<open>
  C6, as stated, fails: a batch holding the largest \<open>int\<close> as UpdateID is published
  again by the second pass, because the first pass leaves the offset at the smallest
  \<open>int\<close>.
\<close>

theorem same_batch_published_twice_at_MaxInt:
  "published (ch (poll [Pass (\<lambda>_ _. Inr [upd MaxInt])] (example_poller 0))) = [upd MaxInt]
   \<and> published (ch (poll [Pass (\<lambda>_ _. Inr [upd MaxInt]), Pass (\<lambda>_ _. Inr [upd MaxInt])]
        (example_poller 0))) = [upd MaxInt, upd MaxInt]
   \<and> poll [Pass (\<lambda>_ _. Inr [upd MaxInt]), Pass (\<lambda>_ _. Inr [upd MaxInt])] (example_poller 0)
       \<noteq> poll [Pass (\<lambda>_ _. Inr [upd MaxInt])] (example_poller 0)"
proof -
  have one: "poll [Pass (\<lambda>_ _. Inr [upd MaxInt])] (example_poller 0) =
      (example_poller (MaxInt + 1))
        \<lparr>ch := \<lparr>chan = \<lparr>cap = 100, buf = [upd MaxInt], closed = False\<rparr>,
                 received = [], demand = 0\<rparr>\<rparr>"
    by (simp add: example_poller_def example_bot_def upd_def loop_pass_def can_receive_def
        GetUpdates_def send_update_def send_def chan_send_def MaxInt_def)
  have two: "poll [Pass (\<lambda>_ _. Inr [upd MaxInt]), Pass (\<lambda>_ _. Inr [upd MaxInt])] (example_poller 0) =
      (example_poller (MaxInt + 1))
        \<lparr>ch := \<lparr>chan = \<lparr>cap = 100, buf = [upd MaxInt, upd MaxInt], closed = False\<rparr>,
                 received = [], demand = 0\<rparr>\<rparr>"
    by (simp add: example_poller_def example_bot_def upd_def loop_pass_def can_receive_def
        GetUpdates_def send_update_def send_def chan_send_def MaxInt_def)
  show ?thesis unfolding one two
    by (simp add: example_poller_def published_def)
qed

text \<open>
  C6, amended. When no Update of the batch has the largest \<open>int\<close> as UpdateID, a second
  pass over the same batch changes nothing: two passes leave the session exactly where
  one pass leaves it. From offset 0, the batches 5, 6 and 6, 7 followed by any number of
  empty batches publish 5, 6, 7 once each, in that order, and leave the offset at 8.
\<close>

theorem same_batch_twice_below_MaxInt:
  "((\<forall>u\<in>set batch. UpdateID u \<noteq> MaxInt) \<longrightarrow>
      poll [Pass (\<lambda>_ _. Inr batch), Pass (\<lambda>_ _. Inr batch)] s = poll [Pass (\<lambda>_ _. Inr batch)] s)
   \<and> published (ch (poll ([Pass (\<lambda>_ _. Inr [upd 5, upd 6]), Pass (\<lambda>_ _. Inr [upd 6, upd 7])]
                          @ replicate k (Pass (\<lambda>_ _. Inr []))) (example_poller 0)))
       = [upd 5, upd 6, upd 7]
   \<and> Offset (config (poll ([Pass (\<lambda>_ _. Inr [upd 5, upd 6]), Pass (\<lambda>_ _. Inr [upd 6, upd 7])]
                          @ replicate k (Pass (\<lambda>_ _. Inr []))) (example_poller 0))) = 8"
proof (intro conjI impI)
  assume b: "\<forall>u\<in>set batch. UpdateID u \<noteq> MaxInt"
  show "poll [Pass (\<lambda>_ _. Inr batch), Pass (\<lambda>_ _. Inr batch)] s = poll [Pass (\<lambda>_ _. Inr batch)] s"
  proof (cases "status s = Running \<and> status (loop_pass (\<lambda>_ _. Inr batch) s) = Running")
    case True
    then show ?thesis using loop_pass_twice[OF b, of s] by simp
  next
    case False
    then show ?thesis by auto
  qed
next
  let ?es = "[Pass (\<lambda>_ _. Inr [upd 5, upd 6]), Pass (\<lambda>_ _. Inr [upd 6, upd 7])] :: unit event list"
  let ?s = "(example_poller 8)
        \<lparr>ch := \<lparr>chan = \<lparr>cap = 100, buf = [upd 5, upd 6, upd 7], closed = False\<rparr>,
                 received = [], demand = 0\<rparr>\<rparr>"
  have "poll (?es @ replicate k (Pass (\<lambda>_ _. Inr []))) (example_poller 0)
      = poll (replicate k (Pass (\<lambda>_ _. Inr []))) (poll ?es (example_poller 0))"
    by (rule poll_append)
  also have "\<dots> = poll (replicate k (Pass (\<lambda>_ _. Inr []))) ?s"
    by (simp only: example_567)
  also have "\<dots> = ?s"
    by (rule poll_idle) (simp_all add: example_poller_def example_bot_def can_receive_def)
  finally have e: "poll (?es @ replicate k (Pass (\<lambda>_ _. Inr []))) (example_poller 0) = ?s" .
  show "published (ch (poll (?es @ replicate k (Pass (\<lambda>_ _. Inr []))) (example_poller 0)))
       = [upd 5, upd 6, upd 7]"
    unfolding e by (simp add: example_poller_def published_def)
  show "Offset (config (poll (?es @ replicate k (Pass (\<lambda>_ _. Inr []))) (example_poller 0))) = 8"
    unfolding e by (simp add: example_poller_def)
qed

theorem same_batch_twice_below_MaxInt_witness:
  "poll [Pass (\<lambda>_ _. Inr [upd 5, upd 6]), Pass (\<lambda>_ _. Inr [upd 5, upd 6])] (example_poller 0)
     = poll [Pass (\<lambda>_ _. Inr [upd 5, upd 6])] (example_poller 0)"
proof -
  have "\<forall>u\<in>set [upd 5, upd 6]. UpdateID u \<noteq> MaxInt"
    by (simp add: upd_def MaxInt_def)
  then show ?thesis
    using same_batch_twice_below_MaxInt[of "[upd 5, upd 6]" "example_poller 0" 0] by blast
qed

section \<open>Webhook requests\<close>

text \<open>
  C7. A request whose method is not POST is refused with the method error and nothing is
  published. A POST whose body does not decode is refused with the decoder's error, which
  is not the method error, and nothing is published. A POST whose body decodes to an
  Update publishes exactly that Update when the queue has room, and leaves the handler
  waiting, with the queue untouched, when it has none.
\<close>

theorem webhook_ingest:
  "(Method r \<noteq> ''POST'' \<longrightarrow>
      HandleUpdate decode r = Inl (ErrorsNew ''wrong HTTP method required POST'')
      \<and> webhook_handler decode r q = (BadRequest ''wrong HTTP method required POST'', q))
   \<and> (Method r = ''POST'' \<and> decode (Body r) = Inl msg \<longrightarrow>
      HandleUpdate decode r = Inl (Foreign msg)
      \<and> Foreign msg \<noteq> ErrorsNew ''wrong HTTP method required POST''
      \<and> webhook_handler decode r q = (BadRequest msg, q))
   \<and> (Method r = ''POST'' \<and> decode (Body r) = Inr update \<longrightarrow>
      HandleUpdate decode r = Inr update
      \<and> (\<not> closed (chan q) \<and> 0 < room q \<longrightarrow>
            (\<exists>q'. webhook_handler decode r q = (Ok, q') \<and> published q' = published q @ [update]))
      \<and> (\<not> closed (chan q) \<and> room q = 0 \<longrightarrow> webhook_handler decode r q = (HandlerBlocked, q)))"
proof (intro conjI impI)
  assume "Method r \<noteq> ''POST''"
  then show "HandleUpdate decode r = Inl (ErrorsNew ''wrong HTTP method required POST'')"
    and "webhook_handler decode r q = (BadRequest ''wrong HTTP method required POST'', q)"
    by (simp_all add: HandleUpdate_def webhook_handler_def)
next
  assume "Method r = ''POST'' \<and> decode (Body r) = Inl msg"
  then show "HandleUpdate decode r = Inl (Foreign msg)"
    and "webhook_handler decode r q = (BadRequest msg, q)"
    by (simp_all add: HandleUpdate_def webhook_handler_def)
next
  show "Foreign msg \<noteq> ErrorsNew ''wrong HTTP method required POST''" by simp
next
  assume a: "Method r = ''POST'' \<and> decode (Body r) = Inr update"
  then show h: "HandleUpdate decode r = Inr update"
    by (simp add: HandleUpdate_def)
  {
    assume b: "\<not> closed (chan q) \<and> 0 < room q"
    then obtain q' where q': "send q update = Done q'"
      using send_room[of q update] by blast
    then have "published q' = published q @ [update]"
      using send_Done[OF q'] by simp
    then show "\<exists>q'. webhook_handler decode r q = (Ok, q') \<and> published q' = published q @ [update]"
      using h q' by (simp add: webhook_handler_def)
  }
  {
    assume "\<not> closed (chan q) \<and> room q = 0"
    then have "send q update = Blocked"
      by (simp add: send_def chan_send_def room_def)
    then show "webhook_handler decode r q = (HandlerBlocked, q)"
      using h by (simp add: webhook_handler_def)
  }
qed

theorem webhook_ingest_witness:
  "webhook_handler json_example \<lparr>Method = ''GET'', Body = ''{}''\<rparr> (example_queue 100 0)
     = (BadRequest ''wrong HTTP method required POST'', example_queue 100 0)
   \<and> webhook_handler json_example \<lparr>Method = ''POST'', Body = ''{''\<rparr> (example_queue 100 0)
     = (BadRequest ''unexpected EOF'', example_queue 100 0)
   \<and> (\<exists>q'. webhook_handler json_example \<lparr>Method = ''POST'', Body = ''{}''\<rparr>
               (example_queue 100 0) = (Ok, q')
            \<and> published q' = published (example_queue 100 0) @ [upd 0])
   \<and> webhook_handler json_example \<lparr>Method = ''POST'', Body = ''{}''\<rparr> (example_queue 0 0)
     = (HandlerBlocked, example_queue 0 0)"
  using webhook_ingest[of "\<lparr>Method = ''GET'', Body = ''{}''\<rparr>" json_example
          "example_queue 100 0" "''''" "upd 0"]
        webhook_ingest[of "\<lparr>Method = ''POST'', Body = ''{''\<rparr>" json_example
          "example_queue 100 0" "''unexpected EOF''" "upd 0"]
        webhook_ingest[of "\<lparr>Method = ''POST'', Body = ''{}''\<rparr>" json_example
          "example_queue 100 0" "''''" "upd 0"]
        webhook_ingest[of "\<lparr>Method = ''POST'', Body = ''{}''\<rparr>" json_example
          "example_queue 0 0" "''''" "upd 0"]
  by (simp add: json_example_def example_queue_def room_def)

text \<open>
  C9. For a request whose method is not POST, HandleUpdate returns the method error
  whatever the body and whatever the decoder would make of it.
\<close>

theorem wrong_method_never_decodes:
  "Method r \<noteq> ''POST'' \<Longrightarrow>
     HandleUpdate decode (r\<lparr>Body := body\<rparr>) = Inl (ErrorsNew ''wrong HTTP method required POST'')
     \<and> HandleUpdate decode (r\<lparr>Body := body\<rparr>) = HandleUpdate decode' r"
  by (simp add: HandleUpdate_def)

theorem wrong_method_never_decodes_witness:
  "HandleUpdate (\<lambda>_. Inr (upd 0)) \<lparr>Method = ''GET'', Body = ''{}''\<rparr>
     = Inl (ErrorsNew ''wrong HTTP method required POST'')"
  using wrong_method_never_decodes[of "\<lparr>Method = ''GET'', Body = []\<rparr>" "\<lambda>_. Inr (upd 0)"
      "''{}''" "\<lambda>_. Inr (upd 0)"]
  by simp

section \<open>The capacity of the queue\<close>

text \<open>
  C8. A client from NewBotAPIWithClient has \<open>Buffer\<close> 100, and the channels that
  GetUpdatesChan and ListenForWebhook make for it have capacity 100. For any client the
  capacity is its \<open>Buffer\<close>, and the polling loop never holds more than that in the
  channel. A send on a full channel does not complete: it stays blocked while the
  application receives nothing, and completes, losing nothing, once the application
  receives; the loop blocked in a send publishes nothing further and drops nothing.
\<close>

theorem queue_capacity_is_Buffer:
  "(\<exists>b. NewBotAPIWithClient token endpoint (Inr self) = Inr b \<and> Buffer b = 100
         \<and> (\<exists>s :: ('u, 'p) poller. GetUpdatesChan b cfg d = Some s \<and> cap (chan (ch s)) = 100)
         \<and> (\<exists>q :: 'p Update queue. ListenForWebhook b d = Some q \<and> cap (chan q) = 100))
   \<and> (GetUpdatesChan b cfg d = Some s0 \<longrightarrow>
        bounded s0 (nat (sint (Buffer b))) \<and> buf (chan (ch s0)) = []
        \<and> bounded (poll es s0) (nat (sint (Buffer b))))
   \<and> (ListenForWebhook b d = Some q0 \<longrightarrow>
        cap (chan q0) = nat (sint (Buffer b)) \<and> buf (chan q0) = [])
   \<and> (\<not> closed (chan q) \<and> length (buf (chan q)) = cap (chan q) \<longrightarrow>
        chan_send (chan q) x = WouldBlock
        \<and> (demand q = 0 \<longrightarrow> send q x = Blocked)
        \<and> (0 < demand q \<longrightarrow>
              (\<exists>q'. send q x = Done q' \<and> published q' = published q @ [x]
                    \<and> length (buf (chan q')) = cap (chan q'))))
   \<and> (\<not> closed (chan (ch s)) \<and> length (buf (chan (ch s))) = cap (chan (ch s))
        \<and> demand (ch s) = 0 \<and> sint (Offset (config s)) \<le> sint (UpdateID u) \<longrightarrow>
        range_updates (u # us) s =
          s\<lparr>config := (config s)\<lparr>Offset := UpdateID u + 1\<rparr>, status := BlockedOnSend\<rparr>)"
proof (intro conjI impI)
  show "\<exists>b. NewBotAPIWithClient token endpoint (Inr self) = Inr b \<and> Buffer b = 100
         \<and> (\<exists>s :: ('u, 'p) poller. GetUpdatesChan b cfg d = Some s \<and> cap (chan (ch s)) = 100)
         \<and> (\<exists>q :: 'p Update queue. ListenForWebhook b d = Some q \<and> cap (chan q) = 100)"
    by (simp add: NewBotAPIWithClient_def GetUpdatesChan_def ListenForWebhook_def make_chan_def)
next
  assume "GetUpdatesChan b cfg d = Some s0"
  then show b0: "bounded s0 (nat (sint (Buffer b)))" and "buf (chan (ch s0)) = []"
    by (auto simp: GetUpdatesChan_def make_chan_def bounded_def split: if_splits)
  show "bounded (poll es s0) (nat (sint (Buffer b)))"
    using b0 by (rule poll_bounded)
next
  assume "ListenForWebhook b d = Some q0"
  then show "cap (chan q0) = nat (sint (Buffer b))" and "buf (chan q0) = []"
    by (auto simp: ListenForWebhook_def make_chan_def split: if_splits)
next
  assume full: "\<not> closed (chan q) \<and> length (buf (chan q)) = cap (chan q)"
  then show w: "chan_send (chan q) x = WouldBlock"
    by (simp add: chan_send_def)
  {
    assume "demand q = 0"
    then show "send q x = Blocked" using w by (simp add: send_def)
  }
  {
    assume "0 < demand q"
    then show "\<exists>q'. send q x = Done q' \<and> published q' = published q @ [x]
                    \<and> length (buf (chan q')) = cap (chan q')"
      using w full by (auto simp: send_def published_def split: nat.splits list.splits)
  }
next
  assume a: "\<not> closed (chan (ch s)) \<and> length (buf (chan (ch s))) = cap (chan (ch s))
        \<and> demand (ch s) = 0 \<and> sint (Offset (config s)) \<le> sint (UpdateID u)"
  let ?s1 = "s\<lparr>config := (config s)\<lparr>Offset := UpdateID u + 1\<rparr>\<rparr>"
  have "send (ch ?s1) u = Blocked"
    using a by (simp add: send_def chan_send_def)
  then have "send_update u ?s1 = ?s1\<lparr>status := BlockedOnSend\<rparr>"
    by (simp add: send_update_def)
  then show "range_updates (u # us) s =
          s\<lparr>config := (config s)\<lparr>Offset := UpdateID u + 1\<rparr>, status := BlockedOnSend\<rparr>"
    using a by (simp add: Let_def)
qed

theorem queue_capacity_is_Buffer_witness:
  "send \<lparr>chan = \<lparr>cap = 2, buf = [upd 1, upd 2], closed = False\<rparr>, received = [], demand = 0\<rparr>
        (upd 3) = Blocked
   \<and> (\<exists>q'. send \<lparr>chan = \<lparr>cap = 2, buf = [upd 1, upd 2], closed = False\<rparr>, received = [],
                  demand = 1\<rparr> (upd 3) = Done q'
          \<and> published q' = [upd 1, upd 2, upd 3])
   \<and> bounded (poll [Pass (\<lambda>_ _. Inr [upd 1, upd 2, upd 3])]
                 ((example_poller 0)\<lparr>ch := example_queue 2 0,
                                      bot_api := example_bot\<lparr>Buffer := 2\<rparr>\<rparr>)) 2
   \<and> range_updates [upd 3] ((example_poller 0)
          \<lparr>ch := \<lparr>chan = \<lparr>cap = 2, buf = [upd 1, upd 2], closed = False\<rparr>, received = [],
                   demand = 0\<rparr>\<rparr>)
        = (example_poller 4)
          \<lparr>ch := \<lparr>chan = \<lparr>cap = 2, buf = [upd 1, upd 2], closed = False\<rparr>, received = [],
                   demand = 0\<rparr>,
           status := BlockedOnSend\<rparr>
   \<and> cap (chan (example_queue 2 0)) = 2"
proof -
  let ?full = "\<lparr>chan = \<lparr>cap = 2, buf = [upd 1, upd 2], closed = False\<rparr>, received = [],
              demand = 0\<rparr>"
  let ?fed = "\<lparr>chan = \<lparr>cap = 2, buf = [upd 1, upd 2], closed = False\<rparr>, received = [],
              demand = 1\<rparr>"
  let ?b = "example_bot\<lparr>Buffer := 2\<rparr>"
  let ?cfg = "\<lparr>Offset = 0, Limit = 0, Timeout = 0\<rparr>"
  let ?start = "(example_poller 0)\<lparr>ch := example_queue 2 0, bot_api := example_bot\<lparr>Buffer := 2\<rparr>\<rparr>"
  let ?blocked = "(example_poller 0)\<lparr>ch := ?full\<rparr>"
  let ?es = "[Pass (\<lambda>_ _. Inr [upd 1, upd 2, upd 3])] :: unit event list"
  have full0: "\<not> closed (chan ?full) \<and> length (buf (chan ?full)) = cap (chan ?full)" by simp
  have full1: "\<not> closed (chan ?fed) \<and> length (buf (chan ?fed)) = cap (chan ?fed)" by simp
  have full: "\<not> closed (chan (ch ?blocked)) \<and> length (buf (chan (ch ?blocked))) = cap (chan (ch ?blocked))
        \<and> demand (ch ?blocked) = 0 \<and> sint (Offset (config ?blocked)) \<le> sint (UpdateID (upd 3))"
    by (simp add: example_poller_def upd_def)
  have started: "GetUpdatesChan ?b ?cfg 0 = Some ?start"
    by (simp add: GetUpdatesChan_def make_chan_def example_bot_def example_poller_def
        example_queue_def)
  have two: "nat (sint (Buffer ?b)) = 2" by (simp add: example_bot_def)
  note t0 = queue_capacity_is_Buffer[of "''token''" "''endpoint''" "()" ?cfg 0 ?b ?start ?es
        "example_queue 2 0" ?full "upd 3" ?blocked "upd 3" "[]"]
  note t1 = queue_capacity_is_Buffer[of "''token''" "''endpoint''" "()" ?cfg 0 ?b ?start ?es
        "example_queue 2 0" ?fed "upd 3" ?blocked "upd 3" "[]"]
  have "demand ?full = 0 \<longrightarrow> send ?full (upd 3) = Blocked"
    using t0 full0 by blast
  then have "send ?full (upd 3) = Blocked" by simp
  moreover have "0 < demand ?fed \<longrightarrow> (\<exists>q'. send ?fed (upd 3) = Done q'
      \<and> published q' = published ?fed @ [upd 3] \<and> length (buf (chan q')) = cap (chan q'))"
    using t1 full1 by blast
  then have "\<exists>q'. send ?fed (upd 3) = Done q' \<and> published q' = [upd 1, upd 2, upd 3]"
    by (auto simp: published_def)
  moreover have "bounded ?start (nat (sint (Buffer ?b))) \<and> bounded (poll ?es ?start) (nat (sint (Buffer ?b)))"
    using t0 started by blast
  then have "bounded (poll ?es ?start) 2"
    unfolding two by blast
  moreover have "range_updates [upd 3] ?blocked =
      ?blocked\<lparr>config := (config ?blocked)\<lparr>Offset := UpdateID (upd 3) + 1\<rparr>, status := BlockedOnSend\<rparr>"
    using t0 full by blast
  then have "range_updates [upd 3] ?blocked = (example_poller 4)\<lparr>ch := ?full, status := BlockedOnSend\<rparr>"
    by (simp add: example_poller_def upd_def)
  moreover have "ListenForWebhook ?b 0 = Some (example_queue 2 0)"
    by (simp add: ListenForWebhook_def make_chan_def example_bot_def example_queue_def)
  then have "cap (chan (example_queue 2 0)) = nat (sint (Buffer ?b))"
    using t0 by blast
  then have "cap (chan (example_queue 2 0)) = 2"
    unfolding two .
  ultimately show ?thesis by (intro conjI)
qed

section \<open>Request parameters\<close>

text \<open>
  C10. GetUpdates sends \<open>offset\<close> exactly when \<open>config.Offset\<close> is not zero (negative
  values included), \<open>limit\<close> exactly when \<open>config.Limit\<close> is positive and \<open>timeout\<close>
  exactly when \<open>config.Timeout\<close> is positive, each once with the number in decimal, and
  no other parameter.
\<close>

theorem GetUpdates_parameters:
  "GetUpdates_values cfg ''offset'' =
     (if Offset cfg \<noteq> 0 then Some [Itoa (Offset cfg)] else None)
   \<and> GetUpdates_values cfg ''limit'' =
     (if 0 < sint (Limit cfg) then Some [Itoa (Limit cfg)] else None)
   \<and> GetUpdates_values cfg ''timeout'' =
     (if 0 < sint (Timeout cfg) then Some [Itoa (Timeout cfg)] else None)
   \<and> dom (GetUpdates_values cfg) \<subseteq> {''offset'', ''limit'', ''timeout''}
   \<and> GetUpdates MakeRequest cfg = MakeRequest ''getUpdates'' (GetUpdates_values cfg)"
  by (simp add: GetUpdates_values_def GetUpdates_def Add_def Let_def)

theorem GetUpdates_parameters_witness:
  "GetUpdates_values \<lparr>Offset = - 1, Limit = 0, Timeout = - 5\<rparr> ''offset'' = Some [''-1'']
   \<and> GetUpdates_values \<lparr>Offset = - 1, Limit = 0, Timeout = - 5\<rparr> ''limit'' = None
   \<and> GetUpdates_values \<lparr>Offset = - 1, Limit = 0, Timeout = - 5\<rparr> ''timeout'' = None
   \<and> GetUpdates_values \<lparr>Offset = 0, Limit = 100, Timeout = 60\<rparr> ''offset'' = None
   \<and> GetUpdates_values \<lparr>Offset = 0, Limit = 100, Timeout = 60\<rparr> ''limit'' = Some [''100'']
   \<and> GetUpdates_values \<lparr>Offset = 0, Limit = 100, Timeout = 60\<rparr> ''timeout'' = Some [''60'']"
proof -
  have i: "Itoa (- 1) = ''-1''" "Itoa 100 = ''100''" "Itoa 60 = ''60''"
    by (simp_all add: Itoa_def decimal.simps digit_def)
  show ?thesis
    using GetUpdates_parameters[of "\<lparr>Offset = - 1, Limit = 0, Timeout = - 5\<rparr>"
            "\<lambda>_ _. Inr ([] :: unit Update list)"]
          GetUpdates_parameters[of "\<lparr>Offset = 0, Limit = 100, Timeout = 60\<rparr>"
            "\<lambda>_ _. Inr ([] :: unit Update list)"] i
    by simp
qed


end
